theory Spec2Isabelle
  imports Complex_Main
begin

section \<open>Errors\<close>

text \<open>
  The exceptions the notebook can raise, as values. \<open>KeyError\<close> is a dictionary lookup
  of a missing key, \<open>IndexError\<close> an index out of range (a token id in \<^verbatim>\<open>nn.Embedding\<close>,
  a target in the loss, position \<open>-1\<close> of an empty sequence), \<open>ZeroDivisionError\<close> a
  Python division by zero. Torch reports a wrong index dtype, shapes that cannot be
  broadcast and a reduction over no element as \<^verbatim>\<open>RuntimeError\<close>; the three constructors
  keep them apart. A function that can raise returns \<open>error + 'a\<close>, with \<open>Inl\<close> the
  exception; nothing in the notebook catches one, so \<open>bindE\<close> passes it on.
\<close>

datatype error =
  KeyError | IndexError | ZeroDivisionError
  | RuntimeError_dtype | RuntimeError_size | RuntimeError_empty

definition bindE :: "error + 'a \<Rightarrow> ('a \<Rightarrow> error + 'b) \<Rightarrow> error + 'b" where
  "bindE r f = (case r of Inl e \<Rightarrow> Inl e | Inr v \<Rightarrow> f v)"

text \<open>A \<^verbatim>\<open>for\<close> loop over a list whose body can raise, and a list comprehension
  whose element expression can raise.\<close>

fun foldE :: "('s \<Rightarrow> 'a \<Rightarrow> error + 's) \<Rightarrow> 's \<Rightarrow> 'a list \<Rightarrow> error + 's" where
  "foldE f s [] = Inr s"
| "foldE f s (x # xs) = (case f s x of Inl e \<Rightarrow> Inl e | Inr s' \<Rightarrow> foldE f s' xs)"

fun mapE :: "('a \<Rightarrow> error + 'b) \<Rightarrow> 'a list \<Rightarrow> error + 'b list" where
  "mapE f [] = Inr []"
| "mapE f (x # xs) =
     (case f x of Inl e \<Rightarrow> Inl e
      | Inr y \<Rightarrow> (case mapE f xs of Inl e \<Rightarrow> Inl e | Inr ys \<Rightarrow> Inr (y # ys)))"

section \<open>Tensors and the torch layers the notebook builds on\<close>

text \<open>
  The notebook computes with single-precision tensors. The embedding idealises them:
  a tensor entry is a \<^typ>\<open>real\<close>, and \<open>exp\<close>, \<open>ln\<close>, \<open>sqrt\<close>, \<open>sin\<close>, \<open>cos\<close> are the
  exact functions, so rounding, overflow and NaN are outside the model. Every tensor
  the notebook hands to the model is built by \<^verbatim>\<open>torch.tensor(ids).unsqueeze(0)\<close>, a
  batch of exactly one sequence. The embedding carries that one batch element: an
  activation of shape \<open>(1, L, d)\<close> is the list of its \<open>L\<close> rows, each a list of \<open>d\<close>
  reals. A list of rows records no width when it has no row; statements about shapes
  speak of \<open>has_shape x L d\<close>.

  The layers of torch (\<^verbatim>\<open>nn.Linear\<close>, \<^verbatim>\<open>nn.LayerNorm\<close>, \<^verbatim>\<open>nn.ReLU\<close>, \<^verbatim>\<open>nn.Embedding\<close>,
  \<^verbatim>\<open>nn.CrossEntropyLoss\<close>, \<^verbatim>\<open>torch.bmm\<close>, \<^verbatim>\<open>torch.softmax\<close>, \<^verbatim>\<open>torch.argmax\<close>) are
  modelled from their documented formulas. The widths of all layers of one model are
  fixed together by the constructors (the predicates \<open>wf_\<dots>\<close> and \<open>is_SimpleLLM\<close>
  below say what the constructors build), so the width checks of \<^verbatim>\<open>nn.Linear\<close> and
  \<^verbatim>\<open>nn.LayerNorm\<close> cannot fail inside a model and are not modelled; the checks that
  depend on the input are: the dtype and the range of the token ids, the length of the
  sequence against the positional table, and the last position of an empty sequence.
\<close>

type_synonym vec = "real list"
type_synonym mat = "real list list"

definition has_shape :: "mat \<Rightarrow> nat \<Rightarrow> nat \<Rightarrow> bool" where
  "has_shape x L d \<longleftrightarrow> length x = L \<and> (\<forall>r \<in> set x. length r = d)"

definition dot :: "vec \<Rightarrow> vec \<Rightarrow> real" where
  "dot u v = sum_list (map2 (*) u v)"

text \<open>
  \<^verbatim>\<open>torch.bmm(a, b)\<close> on the single batch element: row \<open>i\<close>, column \<open>j\<close> of the product
  is the dot product of row \<open>i\<close> of \<open>a\<close> with column \<open>j\<close> of \<open>b\<close>. The columns of \<open>b\<close>
  are the rows of its transpose; \<^verbatim>\<open>t.transpose(1, 2)\<close> is \<^const>\<open>transpose\<close>.
\<close>

definition bmm :: "mat \<Rightarrow> mat \<Rightarrow> mat" where
  "bmm a b = map (\<lambda>r. map (dot r) (transpose b)) a"

text \<open>\<^verbatim>\<open>x.size(-1)\<close>: the width of the rows.\<close>

definition size_last :: "mat \<Rightarrow> nat" where
  "size_last x = (case x of [] \<Rightarrow> 0 | r # _ \<Rightarrow> length r)"

text \<open>\<^verbatim>\<open>torch.softmax(v, dim=-1)\<close> on one row: \<open>exp v\<^sub>i / \<Sum>\<^sub>j exp v\<^sub>j\<close>.\<close>

definition softmax :: "vec \<Rightarrow> vec" where
  "softmax v = map (\<lambda>s. exp s / sum_list (map exp v)) v"

text \<open>\<^verbatim>\<open>a + b\<close> on two activations of the same shape.\<close>

definition madd :: "mat \<Rightarrow> mat \<Rightarrow> mat" where
  "madd a b = map2 (map2 (+)) a b"

text \<open>
  \<^verbatim>\<open>nn.Linear(in_features, out_features)\<close> holds a weight of shape
  \<open>(out_features, in_features)\<close> and a bias of length \<open>out_features\<close>, and maps every
  row \<open>r\<close> to \<open>r W\<^sup>T + b\<close>.
\<close>

record Linear =
  weight :: mat
  bias :: vec

definition wf_Linear :: "Linear \<Rightarrow> nat \<Rightarrow> nat \<Rightarrow> bool" where
  "wf_Linear lin n_in n_out \<longleftrightarrow> has_shape (weight lin) n_out n_in \<and> length (bias lin) = n_out"

definition Linear_forward :: "Linear \<Rightarrow> mat \<Rightarrow> mat" where
  "Linear_forward lin x = map (\<lambda>r. map2 (+) (map (dot r) (weight lin)) (bias lin)) x"

text \<open>
  \<^verbatim>\<open>nn.LayerNorm(d)\<close> normalises every row over its \<open>d\<close> channels with the biased
  variance and \<open>eps = 1e-5\<close>, then scales by its weight and shifts by its bias
  (the fields \<open>ln_weight\<close> and \<open>ln_bias\<close>).
\<close>

definition eps :: real where
  "eps = 1 / 100000"

record LayerNorm =
  ln_weight :: vec
  ln_bias :: vec

definition wf_LayerNorm :: "LayerNorm \<Rightarrow> nat \<Rightarrow> bool" where
  "wf_LayerNorm nl d \<longleftrightarrow> length (ln_weight nl) = d \<and> length (ln_bias nl) = d"

definition mean :: "vec \<Rightarrow> real" where
  "mean r = sum_list r / real (length r)"

definition var :: "vec \<Rightarrow> real" where
  "var r = sum_list (map (\<lambda>a. (a - mean r)\<^sup>2) r) / real (length r)"

definition LayerNorm_row :: "LayerNorm \<Rightarrow> vec \<Rightarrow> vec" where
  "LayerNorm_row nl r =
     map2 (+) (map2 (*) (map (\<lambda>a. (a - mean r) / sqrt (var r + eps)) r) (ln_weight nl))
       (ln_bias nl)"

definition LayerNorm_forward :: "LayerNorm \<Rightarrow> mat \<Rightarrow> mat" where
  "LayerNorm_forward nl x = map (LayerNorm_row nl) x"

definition ReLU :: "mat \<Rightarrow> mat" where
  "ReLU x = map (map (max 0)) x"

text \<open>
  \<^verbatim>\<open>torch.tensor(ids)\<close> of a list of Python ints is an int64 tensor, and of the empty
  list a float32 tensor (the default dtype). Token ids are taken to fit int64.
\<close>

datatype tensor_in = LongTensor "int list" | FloatTensor "real list"

definition torch_tensor :: "int list \<Rightarrow> tensor_in" where
  "torch_tensor ids = (if ids = [] then FloatTensor [] else LongTensor ids)"

text \<open>\<^verbatim>\<open>output[:, -1, :]\<close>: the row of the last position; index \<open>-1\<close> of no position
  raises.\<close>

definition last_position :: "mat \<Rightarrow> error + vec" where
  "last_position out = (if out = [] then Inl IndexError else Inr (last out))"

text \<open>\<^verbatim>\<open>torch.argmax\<close>: the index of the first maximal value; no element raises.\<close>

fun argmax_list :: "vec \<Rightarrow> nat" where
  "argmax_list [] = 0"
| "argmax_list [a] = 0"
| "argmax_list (a # b # v) =
     (let j = argmax_list (b # v) in if a < (b # v) ! j then Suc j else 0)"

definition argmax :: "vec \<Rightarrow> error + nat" where
  "argmax v = (if v = [] then Inl RuntimeError_empty else Inr (argmax_list v))"

text \<open>
  \<^verbatim>\<open>nn.CrossEntropyLoss()\<close> on one row of logits and one class index: minus the log of
  the softmax probability of the class; a class index outside the row raises. (Torch
  skips the class index \<open>-100\<close> and then returns NaN, which a real cannot hold; token
  ids are not negative in the notebook, and the model raises there as for the other
  negative indices.)
\<close>

definition CrossEntropyLoss :: "vec \<Rightarrow> int \<Rightarrow> error + real" where
  "CrossEntropyLoss logits target =
     (if 0 \<le> target \<and> target < int (length logits)
      then Inr (- ln (softmax logits ! nat target))
      else Inl IndexError)"

section \<open>Step 1: Tokenization\<close>

text \<open>
  \<^verbatim>\<open>
  def tokenize(text, vocab):
      return [vocab.get(word, vocab["<UNK>"]) for word in text.split()]
  \<close>
  \<^verbatim>\<open>text.split()\<close> cuts at runs of whitespace and returns no empty word. A \<^typ>\<open>char\<close>
  stands for a code point below 256; \<open>is_space\<close> lists those Python counts as
  whitespace. The default \<^verbatim>\<open>vocab["<UNK>"]\<close> is evaluated for every word, also for a
  word the vocabulary has, so a vocabulary without that key raises as soon as the
  text has one word, and not at all when it has none.
\<close>

definition is_space :: "char \<Rightarrow> bool" where
  "is_space c \<longleftrightarrow>
     c \<in> set [CHR 0x09, CHR 0x0A, CHR 0x0B, CHR 0x0C, CHR 0x0D,
               CHR 0x1C, CHR 0x1D, CHR 0x1E, CHR 0x1F, CHR 0x20, CHR 0x85, CHR 0xA0]"

fun split_acc :: "string \<Rightarrow> string \<Rightarrow> string list" where
  "split_acc w [] = (if w = [] then [] else [w])"
| "split_acc w (c # cs) =
     (if is_space c then (if w = [] then split_acc [] cs else w # split_acc [] cs)
      else split_acc (w @ [c]) cs)"

definition str_split :: "string \<Rightarrow> string list" where
  "str_split text = split_acc [] text"

definition tokenize :: "string \<Rightarrow> (string \<rightharpoonup> int) \<Rightarrow> error + int list" where
  "tokenize text vocab =
     mapE (\<lambda>word. case vocab ''<UNK>'' of
                    None \<Rightarrow> Inl KeyError
                  | Some unk \<Rightarrow> Inr (case vocab word of Some v \<Rightarrow> v | None \<Rightarrow> unk))
       (str_split text)"

section \<open>Step 2: Embedding Layer\<close>

text \<open>
  \<^verbatim>\<open>
  class Embedding(nn.Module):
      def __init__(self, vocab_size, embedding_dim):
          self.embedding = nn.Embedding(vocab_size, embedding_dim)
      def forward(self, x):
          return self.embedding(x)
  \<close>
  \<open>emb_weight\<close> is the matrix \<^verbatim>\<open>self.embedding.weight\<close>, of shape
  \<open>(vocab_size, embedding_dim)\<close>; its number of rows is \<open>vocab_size\<close>.
  \<^verbatim>\<open>nn.Embedding\<close> refuses an index tensor that is not of an integer dtype, raises
  \<^verbatim>\<open>IndexError\<close> for an index below 0 or not below the number of rows, and otherwise
  returns the rows the indices name.
\<close>

record Embedding =
  emb_weight :: mat

definition Embedding_forward :: "Embedding \<Rightarrow> tensor_in \<Rightarrow> error + mat" where
  "Embedding_forward self x =
     (case x of
        FloatTensor _ \<Rightarrow> Inl RuntimeError_dtype
      | LongTensor ids \<Rightarrow>
          if \<forall>i \<in> set ids. 0 \<le> i \<and> i < int (length (emb_weight self))
          then Inr (map (\<lambda>i. emb_weight self ! nat i) ids)
          else Inl IndexError)"

section \<open>Step 3: Positional Encoding\<close>

text \<open>
  \<^verbatim>\<open>
  class PositionalEncoding(nn.Module):
      def __init__(self, embedding_dim, max_seq_len=5000):
          self.embedding_dim = embedding_dim
          pe = torch.zeros(max_seq_len, embedding_dim)
          position = torch.arange(0, max_seq_len, dtype=torch.float).unsqueeze(1)
          div_term = torch.exp(torch.arange(0, embedding_dim, 2).float() * (-math.log(10000.0) / embedding_dim))
          pe[:, 0::2] = torch.sin(position * div_term)
          pe[:, 1::2] = torch.cos(position * div_term)
          pe = pe.unsqueeze(0).transpose(0, 1)
          self.register_buffer('pe', pe)
      def forward(self, x):
          return x + self.pe[:x.size(0), :]
  \<close>
  \<open>div_term\<close> has one entry for each of \<open>0, 2, 4, \<dots>\<close> below \<open>embedding_dim\<close>.
  \<open>set_cols start row src\<close> is the slice assignment \<^verbatim>\<open>row[start::2] = src\<close> on one row
  of the table, and \<open>pe_table\<close> runs the two assignments on every row of the zero
  table. The constructor raises \<^verbatim>\<open>ZeroDivisionError\<close> for \<open>embedding_dim = 0\<close>, and the
  second assignment raises when the \<open>ceil(d/2)\<close> columns of the cosines cannot be
  broadcast to the \<open>floor(d/2)\<close> odd columns of the table, which is for every odd
  \<open>embedding_dim\<close> from 3 on.
\<close>

definition div_term :: "nat \<Rightarrow> vec" where
  "div_term d = map (\<lambda>k. exp (real (2 * k) * (- ln 10000 / real d))) [0..<(d + 1) div 2]"

definition set_cols :: "nat \<Rightarrow> vec \<Rightarrow> vec \<Rightarrow> vec" where
  "set_cols start row src =
     map (\<lambda>c. if start \<le> c \<and> even (c - start) then src ! ((c - start) div 2) else row ! c)
       [0..<length row]"

definition pe_table :: "nat \<Rightarrow> nat \<Rightarrow> mat" where
  "pe_table d max_seq_len =
     map (\<lambda>position.
        let row0 = replicate d 0;
            row1 = set_cols 0 row0 (map (\<lambda>t. sin (real position * t)) (div_term d));
            row2 = set_cols 1 row1 (map (\<lambda>t. cos (real position * t)) (div_term d))
        in row2)
       [0..<max_seq_len]"

record PositionalEncoding =
  embedding_dim :: nat
  pe :: mat

definition PositionalEncoding_init :: "nat \<Rightarrow> nat \<Rightarrow> error + PositionalEncoding" where
  "PositionalEncoding_init d max_seq_len =
     (if d = 0 then Inl ZeroDivisionError
      else if (d + 1) div 2 \<noteq> d div 2 \<and> (d + 1) div 2 \<noteq> 1 then Inl RuntimeError_size
      else Inr \<lparr>embedding_dim = d, pe = pe_table d max_seq_len\<rparr>)"

text \<open>
  \<open>forward\<close> receives the sequence with the positions on axis 0. The slice
  \<^verbatim>\<open>self.pe[:x.size(0), :]\<close> has \<open>min (length x) max_seq_len\<close> rows. The sum
  broadcasts on axis 0 as torch does: equal lengths add row by row, a side of length 1
  is repeated, any other pair of lengths raises.
\<close>

definition PositionalEncoding_forward :: "PositionalEncoding \<Rightarrow> mat \<Rightarrow> error + mat" where
  "PositionalEncoding_forward self x =
     (let sl = take (length x) (pe self)
      in if length sl = length x then Inr (madd x sl)
         else if length sl = 1 then Inr (map (\<lambda>r. map2 (+) r (sl ! 0)) x)
         else if length x = 1 then Inr (map (\<lambda>p. map2 (+) (x ! 0) p) sl)
         else Inl RuntimeError_size)"

section \<open>Step 4: Self-Attention\<close>

text \<open>
  \<^verbatim>\<open>
  class SelfAttention(nn.Module):
      def __init__(self, embedding_dim):
          self.query = nn.Linear(embedding_dim, embedding_dim)
          self.key = nn.Linear(embedding_dim, embedding_dim)
          self.value = nn.Linear(embedding_dim, embedding_dim)
      def forward(self, x):
          queries = self.query(x)
          keys = self.key(x)
          values = self.value(x)
          scores = torch.bmm(queries, keys.transpose(1, 2)) / torch.sqrt(torch.tensor(x.size(-1), dtype=torch.float32))
          attention_weights = torch.softmax(scores, dim=-1)
          attended_values = torch.bmm(attention_weights, values)
          return attended_values
  \<close>
  The field \<open>value_proj\<close> is the source's \<^verbatim>\<open>self.value\<close>. The local variables
  \<^verbatim>\<open>scores\<close> and \<^verbatim>\<open>attention_weights\<close> are definitions of their own, so that
  theorems can speak about them.
\<close>

record SelfAttention =
  query :: Linear
  key :: Linear
  value_proj :: Linear

definition wf_SelfAttention :: "SelfAttention \<Rightarrow> nat \<Rightarrow> bool" where
  "wf_SelfAttention att d \<longleftrightarrow>
     wf_Linear (query att) d d \<and> wf_Linear (key att) d d \<and> wf_Linear (value_proj att) d d"

definition scores :: "SelfAttention \<Rightarrow> mat \<Rightarrow> mat" where
  "scores att x =
     (let queries = Linear_forward (query att) x;
          keys = Linear_forward (key att) x
      in map (map (\<lambda>s. s / sqrt (real (size_last x)))) (bmm queries (transpose keys)))"

definition attention_weights :: "SelfAttention \<Rightarrow> mat \<Rightarrow> mat" where
  "attention_weights att x = map softmax (scores att x)"

definition SelfAttention_forward :: "SelfAttention \<Rightarrow> mat \<Rightarrow> mat" where
  "SelfAttention_forward att x =
     (let values = Linear_forward (value_proj att) x;
          attended_values = bmm (attention_weights att x) values
      in attended_values)"

section \<open>Step 5: Transformer Block\<close>

text \<open>
  \<^verbatim>\<open>
  class TransformerBlock(nn.Module):
      def __init__(self, embedding_dim, hidden_dim):
          self.attention = SelfAttention(embedding_dim)
          self.feed_forward = nn.Sequential(
              nn.Linear(embedding_dim, hidden_dim),
              nn.ReLU(),
              nn.Linear(hidden_dim, embedding_dim)
          )
          self.norm1 = nn.LayerNorm(embedding_dim)
          self.norm2 = nn.LayerNorm(embedding_dim)
      def forward(self, x):
          attended = self.attention(x)
          x = self.norm1(x + attended)
          forwarded = self.feed_forward(x)
          x = self.norm2(x + forwarded)
          return x
  \<close>
  \<open>ff_0\<close> and \<open>ff_2\<close> are the two linear layers of \<^verbatim>\<open>self.feed_forward\<close>, at the
  indices 0 and 2 of the \<^verbatim>\<open>nn.Sequential\<close>. The source rebinds \<^verbatim>\<open>x\<close>; the model names
  the two values \<open>x1\<close> and \<open>x2\<close>.
\<close>

record FeedForward =
  ff_0 :: Linear
  ff_2 :: Linear

definition wf_FeedForward :: "FeedForward \<Rightarrow> nat \<Rightarrow> nat \<Rightarrow> bool" where
  "wf_FeedForward ff d h \<longleftrightarrow> wf_Linear (ff_0 ff) d h \<and> wf_Linear (ff_2 ff) h d"

definition FeedForward_forward :: "FeedForward \<Rightarrow> mat \<Rightarrow> mat" where
  "FeedForward_forward ff x = Linear_forward (ff_2 ff) (ReLU (Linear_forward (ff_0 ff) x))"

record TransformerBlock =
  attention :: SelfAttention
  feed_forward :: FeedForward
  norm1 :: LayerNorm
  norm2 :: LayerNorm

definition wf_TransformerBlock :: "TransformerBlock \<Rightarrow> nat \<Rightarrow> nat \<Rightarrow> bool" where
  "wf_TransformerBlock blk d h \<longleftrightarrow>
     wf_SelfAttention (attention blk) d \<and> wf_FeedForward (feed_forward blk) d h \<and>
     wf_LayerNorm (norm1 blk) d \<and> wf_LayerNorm (norm2 blk) d"

definition TransformerBlock_forward :: "TransformerBlock \<Rightarrow> mat \<Rightarrow> mat" where
  "TransformerBlock_forward blk x =
     (let attended = SelfAttention_forward (attention blk) x;
          x1 = LayerNorm_forward (norm1 blk) (madd x attended);
          forwarded = FeedForward_forward (feed_forward blk) x1;
          x2 = LayerNorm_forward (norm2 blk) (madd x1 forwarded)
      in x2)"

section \<open>Step 6: Full Language Model\<close>

text \<open>
  \<^verbatim>\<open>
  class SimpleLLM(nn.Module):
      def __init__(self, vocab_size, embedding_dim, hidden_dim, num_layers):
          self.embedding = Embedding(vocab_size, embedding_dim)
          self.positional_encoding = PositionalEncoding(embedding_dim)
          self.transformer_blocks = nn.Sequential(num_layers blocks TransformerBlock(embedding_dim, hidden_dim))
          self.output = nn.Linear(embedding_dim, vocab_size)
      def forward(self, x):
          x = self.embedding(x)
          x = x.transpose(0, 1) # Transpose for positional encoding
          x = self.positional_encoding(x)
          x = x.transpose(0, 1) # Transpose back
          x = self.transformer_blocks(x)
          x = self.output(x)
          return x
  \<close>
  The field \<open>output_proj\<close> is the source's \<^verbatim>\<open>self.output\<close>. The two
  \<^verbatim>\<open>transpose(0, 1)\<close> swap the batch axis and the position axis around the positional
  addition; on the list of rows of the one batch element both are the identity, and
  the positional encoder sees the positions on axis 0, as in the source.

  The parameters are initialised at random, so the constructor is a relation:
  \<open>is_SimpleLLM vocab_size embedding_dim hidden_dim num_layers self\<close> holds of the models
  \<^verbatim>\<open>SimpleLLM(vocab_size, embedding_dim, hidden_dim, num_layers)\<close> can return. The
  positional table is the one of \<open>PositionalEncoding_init\<close> with the default
  \<open>max_seq_len = 5000\<close>, so no model exists where that constructor raises.
\<close>

record SimpleLLM =
  embedding :: Embedding
  positional_encoding :: PositionalEncoding
  transformer_blocks :: "TransformerBlock list"
  output_proj :: Linear

definition is_SimpleLLM :: "nat \<Rightarrow> nat \<Rightarrow> nat \<Rightarrow> nat \<Rightarrow> SimpleLLM \<Rightarrow> bool" where
  "is_SimpleLLM n_vocab d hidden_dim num_layers self \<longleftrightarrow>
     has_shape (emb_weight (embedding self)) n_vocab d \<and>
     PositionalEncoding_init d 5000 = Inr (positional_encoding self) \<and>
     length (transformer_blocks self) = num_layers \<and>
     (\<forall>blk \<in> set (transformer_blocks self). wf_TransformerBlock blk d hidden_dim) \<and>
     wf_Linear (output_proj self) d n_vocab"

definition Sequential_forward :: "TransformerBlock list \<Rightarrow> mat \<Rightarrow> mat" where
  "Sequential_forward blocks x = foldl (\<lambda>x blk. TransformerBlock_forward blk x) x blocks"

definition SimpleLLM_forward :: "SimpleLLM \<Rightarrow> tensor_in \<Rightarrow> error + mat" where
  "SimpleLLM_forward self x =
     bindE (Embedding_forward (embedding self) x) (\<lambda>x.
     bindE (PositionalEncoding_forward (positional_encoding self) x) (\<lambda>x.
       let x = Sequential_forward (transformer_blocks self) x;
           x = Linear_forward (output_proj self) x
       in Inr x))"

text \<open>
  \<^verbatim>\<open>model(x)\<close> runs \<open>forward\<close> on the object \<^verbatim>\<open>model\<close>. No \<open>forward\<close> of the notebook
  assigns to an attribute, and none of the torch layers used keeps running statistics,
  so the call returns the object it was given next to the result.
\<close>

definition SimpleLLM_call :: "SimpleLLM \<Rightarrow> tensor_in \<Rightarrow> (error + mat) \<times> SimpleLLM" where
  "SimpleLLM_call self x = (SimpleLLM_forward self x, self)"

section \<open>Step 7: Training the Model\<close>

text \<open>The vocabulary of the notebook, in the order of the dictionary literal.\<close>

definition vocab_items :: "(string \<times> int) list" where
  "vocab_items =
    [(''hello'', 0), (''world'', 1), (''how'', 2), (''are'', 3), (''you'', 4),
     (''<UNK>'', 5), (''good'', 6), (''morning'', 7), (''evening'', 8), (''night'', 9),
     (''friend'', 10), (''nice'', 11), (''to'', 12), (''meet'', 13), (''learning'', 14),
     (''AI'', 15), (''is'', 16), (''fun'', 17), (''great'', 18), (''awesome'', 19),
     (''day'', 20), (''doing'', 21), (''today'', 22), (''hope'', 23), (''all'', 24),
     (''well'', 25), (''enjoy'', 26), (''sunny'', 27), (''weather'', 28), (''coding'', 29),
     (''Python'', 30), (''machine'', 31), (''data'', 32), (''science'', 33),
     (''artificial'', 34), (''intelligence'', 35), (''deep'', 36), (''neural'', 37), (''network'', 38),
     (''natural'', 39), (''language'', 40), (''processing'', 41), (''happy'', 42), (''birthday'', 43),
     (''welcome'', 44), (''home'', 45), (''family'', 46), (''weekend'', 47), (''vacation'', 48),
     (''study'', 49), (''new'', 50), (''projects'', 51), (''explore'', 52), (''knowledge'', 53),
     (''reading'', 54), (''books'', 55), (''writing'', 56), (''articles'', 57), (''playing'', 58),
     (''games'', 59), (''music'', 60), (''exercise'', 61), (''healthy'', 62), (''lifestyle'', 63),
     (''delicious'', 64), (''food'', 65), (''travel'', 66), (''adventure'', 67), (''nature'', 68),
     (''photography'', 69), (''technology'', 70), (''innovation'', 71), (''future'', 72)]"

definition vocab :: "string \<rightharpoonup> int" where
  "vocab = map_of vocab_items"

definition vocab_size :: nat where
  "vocab_size = length vocab_items"

text \<open>
  \<^verbatim>\<open>
  for epoch in range(200):
      total_loss = 0
      for sentence in tokenized_data:
          for i in range(1, len(sentence)):
              input_seq = torch.tensor(sentence[:i]).unsqueeze(0)
              target = torch.tensor(sentence[i]).unsqueeze(0)
              optimizer.zero_grad()
              output = model(input_seq)
              loss = criterion(output[:, -1, :], target)
              loss.backward()
              optimizer.step()
              total_loss += loss.item()
      if epoch % 20 == 0:
          print(f"Epoch {epoch}, Loss: {total_loss:.4f}")
  \<close>
  The state of the loop is the model, the state of the optimizer, the gradients held
  by the parameters and \<^verbatim>\<open>total_loss\<close>. Automatic differentiation and Adam are torch's:
  the loop takes them as the two parameters \<open>backward\<close> (the gradient of the loss of one
  example at the current parameters) and \<open>step\<close> (the optimizer's update of its state
  and of the model from a gradient). \<^verbatim>\<open>zero_grad()\<close> clears the gradients, and
  \<^verbatim>\<open>sentence[i]\<close> raises for an index that is not below the length.
  The field \<open>calls\<close> is a record of the five calls of the body in the order they run;
  it is not a variable of the source, and nothing reads it. The progress line printed
  every 20 epochs is not modelled.
\<close>

datatype event = ZeroGrad | Forward "int list" | Loss int | Backward | Step

record ('o, 'g) train_state =
  model :: SimpleLLM
  optimizer :: 'o
  grads :: "'g option"
  total_loss :: real
  calls :: "event list"

definition train_step ::
  "(SimpleLLM \<Rightarrow> int list \<Rightarrow> int \<Rightarrow> 'g) \<Rightarrow> ('o \<Rightarrow> 'g \<Rightarrow> SimpleLLM \<Rightarrow> 'o \<times> SimpleLLM) \<Rightarrow>
   int list \<Rightarrow> ('o, 'g) train_state \<Rightarrow> nat \<Rightarrow> error + ('o, 'g) train_state" where
  "train_step backward step sentence st i =
     (let input_seq = take i sentence
      in if length sentence \<le> i then Inl IndexError
         else
           let target = sentence ! i;
               st = st\<lparr>grads := None, calls := calls st @ [ZeroGrad]\<rparr>;
               (out, m) = SimpleLLM_call (model st) (torch_tensor input_seq);
               st = st\<lparr>model := m, calls := calls st @ [Forward input_seq]\<rparr>
           in bindE out (\<lambda>out.
              bindE (last_position out) (\<lambda>logits.
              bindE (CrossEntropyLoss logits target) (\<lambda>loss.
                let st = st\<lparr>calls := calls st @ [Loss target]\<rparr>;
                    g = backward (model st) input_seq target;
                    st = st\<lparr>grads := Some g, calls := calls st @ [Backward]\<rparr>;
                    (opt, m) = step (optimizer st) g (model st);
                    st = st\<lparr>model := m, optimizer := opt, calls := calls st @ [Step]\<rparr>;
                    st = st\<lparr>total_loss := total_loss st + loss\<rparr>
                in Inr st))))"

text \<open>\<^verbatim>\<open>for i in range(1, len(sentence))\<close>: the body runs for \<open>i = 1, \<dots>, len - 1\<close>.\<close>

definition train_sentence ::
  "(SimpleLLM \<Rightarrow> int list \<Rightarrow> int \<Rightarrow> 'g) \<Rightarrow> ('o \<Rightarrow> 'g \<Rightarrow> SimpleLLM \<Rightarrow> 'o \<times> SimpleLLM) \<Rightarrow>
   ('o, 'g) train_state \<Rightarrow> int list \<Rightarrow> error + ('o, 'g) train_state" where
  "train_sentence backward step st sentence =
     foldE (train_step backward step sentence) st [1..<length sentence]"

definition train_epoch ::
  "(SimpleLLM \<Rightarrow> int list \<Rightarrow> int \<Rightarrow> 'g) \<Rightarrow> ('o \<Rightarrow> 'g \<Rightarrow> SimpleLLM \<Rightarrow> 'o \<times> SimpleLLM) \<Rightarrow>
   int list list \<Rightarrow> ('o, 'g) train_state \<Rightarrow> nat \<Rightarrow> error + ('o, 'g) train_state" where
  "train_epoch backward step tokenized_data st epoch =
     foldE (train_sentence backward step) (st\<lparr>total_loss := 0\<rparr>) tokenized_data"

definition train ::
  "(SimpleLLM \<Rightarrow> int list \<Rightarrow> int \<Rightarrow> 'g) \<Rightarrow> ('o \<Rightarrow> 'g \<Rightarrow> SimpleLLM \<Rightarrow> 'o \<times> SimpleLLM) \<Rightarrow>
   int list list \<Rightarrow> ('o, 'g) train_state \<Rightarrow> error + ('o, 'g) train_state" where
  "train backward step tokenized_data st =
     foldE (train_epoch backward step tokenized_data) st [0..<200]"

text \<open>
  The training loop as the specification words it, to compare the loop with: the
  examples of a sentence are its pairs of a prefix \<^verbatim>\<open>sentence[0:i]\<close> and the next token
  \<^verbatim>\<open>sentence[i]\<close>, for \<open>i\<close> from 1 to length - 1; one example is one forward pass on the
  prefix, the cross-entropy of the logits at the last position against the next token,
  and one update of the parameters.
\<close>

definition split_points :: "int list \<Rightarrow> (int list \<times> int) list" where
  "split_points sentence = map (\<lambda>i. (take i sentence, sentence ! i)) [1..<length sentence]"

definition example_calls :: "int list \<times> int \<Rightarrow> event list" where
  "example_calls ex = (case ex of (prefix, next_token) \<Rightarrow>
     [ZeroGrad, Forward prefix, Loss next_token, Backward, Step])"

definition online_update ::
  "(SimpleLLM \<Rightarrow> int list \<Rightarrow> int \<Rightarrow> 'g) \<Rightarrow> ('o \<Rightarrow> 'g \<Rightarrow> SimpleLLM \<Rightarrow> 'o \<times> SimpleLLM) \<Rightarrow>
   ('o, 'g) train_state \<Rightarrow> int list \<times> int \<Rightarrow> error + ('o, 'g) train_state" where
  "online_update backward step st ex =
     (case ex of (prefix, next_token) \<Rightarrow>
        bindE (SimpleLLM_forward (model st) (LongTensor prefix)) (\<lambda>out.
        bindE (last_position out) (\<lambda>logits.
        bindE (CrossEntropyLoss logits next_token) (\<lambda>loss.
          let g = backward (model st) prefix next_token;
              (opt, m) = step (optimizer st) g (model st)
          in Inr \<lparr>model = m, optimizer = opt, grads = Some g,
                  total_loss = total_loss st + loss,
                  calls = calls st @ example_calls (prefix, next_token)\<rparr>))))"

section \<open>Step 8: Using the Model\<close>

text \<open>
  \<^verbatim>\<open>
  input_text = input("Enter a sentence: ")
  input_tokens = tokenize(input_text, vocab)
  input_tensor = torch.tensor(input_tokens).unsqueeze(0)
  output = model(input_tensor)
  predicted_token = torch.argmax(output[:, -1, :]).item()
  \<close>
  \<open>predict\<close> is the cell from the token list on, \<open>use_model\<close> the cell from the text
  on; both return the model object next to the outcome. The last line of the cell,
  which prints the word of the predicted id, is not modelled.
\<close>

definition predict :: "SimpleLLM \<Rightarrow> int list \<Rightarrow> (error + nat) \<times> SimpleLLM" where
  "predict m input_tokens =
     (let input_tensor = torch_tensor input_tokens;
          (out, m) = SimpleLLM_call m input_tensor;
          predicted_token = bindE out (\<lambda>out. bindE (last_position out) (\<lambda>logits. argmax logits))
      in (predicted_token, m))"

definition use_model :: "SimpleLLM \<Rightarrow> string \<Rightarrow> (error + nat) \<times> SimpleLLM" where
  "use_model m input_text =
     (case tokenize input_text vocab of
        Inl e \<Rightarrow> (Inl e, m)
      | Inr input_tokens \<Rightarrow> predict m input_tokens)"

section \<open>A small model to instantiate the theorems\<close>

text \<open>A model with two tokens, two channels, three hidden units and one block.\<close>

definition const_Linear :: "nat \<Rightarrow> nat \<Rightarrow> real \<Rightarrow> Linear" where
  "const_Linear n_in n_out c = \<lparr>weight = replicate n_out (replicate n_in c), bias = replicate n_out 0\<rparr>"

definition tiny_block :: TransformerBlock where
  "tiny_block =
     \<lparr>attention = \<lparr>query = const_Linear 2 2 1, key = const_Linear 2 2 1,
                    value_proj = const_Linear 2 2 1\<rparr>,
      feed_forward = \<lparr>ff_0 = const_Linear 2 3 1, ff_2 = const_Linear 3 2 1\<rparr>,
      norm1 = \<lparr>ln_weight = [1, 1], ln_bias = [0, 0]\<rparr>,
      norm2 = \<lparr>ln_weight = [1, 1], ln_bias = [0, 0]\<rparr>\<rparr>"

definition tiny_model :: SimpleLLM where
  "tiny_model =
     \<lparr>embedding = \<lparr>emb_weight = [[1, 0], [0, 1]]\<rparr>,
      positional_encoding = \<lparr>embedding_dim = 2, pe = pe_table 2 5000\<rparr>,
      transformer_blocks = [tiny_block],
      output_proj = const_Linear 2 2 1\<rparr>"

section \<open>Lemmas\<close>

subsection \<open>Shapes of the torch layers\<close>

lemma has_shapeI: "length x = L \<Longrightarrow> (\<And>r. r \<in> set x \<Longrightarrow> length r = d) \<Longrightarrow> has_shape x L d"
  by (simp add: has_shape_def)

lemma has_shape_length: "has_shape x L d \<Longrightarrow> length x = L"
  by (simp add: has_shape_def)

lemma has_shape_nth: "has_shape x L d \<Longrightarrow> i < L \<Longrightarrow> length (x ! i) = d"
  by (simp add: has_shape_def)

lemma has_shape_iff_nth:
  "has_shape x L d \<longleftrightarrow> length x = L \<and> (\<forall>i<L. length (x ! i) = d)"
  by (auto simp: has_shape_def all_set_conv_all_nth)

lemma Linear_forward_shape:
  assumes "wf_Linear lin n_in n_out"
  shows "has_shape (Linear_forward lin x) (length x) n_out"
  using assms by (auto simp: wf_Linear_def has_shape_def Linear_forward_def)

lemma madd_shape:
  assumes "has_shape a L d" and "has_shape b L d"
  shows "has_shape (madd a b) L d"
  using assms by (simp add: has_shape_iff_nth madd_def)

lemma LayerNorm_forward_shape:
  assumes "wf_LayerNorm nl d" and "has_shape x L d"
  shows "has_shape (LayerNorm_forward nl x) L d"
  using assms
  by (simp add: has_shape_iff_nth LayerNorm_forward_def LayerNorm_row_def wf_LayerNorm_def)

lemma ReLU_shape: "has_shape x L d \<Longrightarrow> has_shape (ReLU x) L d"
  by (simp add: has_shape_iff_nth ReLU_def)

lemma transpose_rect:
  assumes "has_shape k L d" and "0 < L"
  shows "transpose k = map (\<lambda>i. map (\<lambda>j. k ! j ! i) [0..<L]) [0..<d]"
proof -
  have "k \<noteq> []" using assms by (auto simp: has_shape_def)
  moreover have "\<And>i. i < length k \<Longrightarrow> length (k ! i) = d"
    using assms by (simp add: has_shape_def)
  ultimately have "transpose k = map (\<lambda>i. map (\<lambda>j. k ! j ! i) [0..<length k]) [0..<d]"
    by (intro transpose_rectangle) simp_all
  then show ?thesis using assms by (simp add: has_shape_def)
qed

lemma transpose_transpose_rect:
  assumes "has_shape k L d" and "0 < d"
  shows "transpose (transpose k) = k"
proof (cases "L = 0")
  case True
  then show ?thesis using assms by (simp add: has_shape_def)
next
  case False
  then have L: "0 < L" by simp
  let ?t = "map (\<lambda>i. map (\<lambda>j. k ! j ! i) [0..<L]) [0..<d]"
  have t: "transpose k = ?t" by (rule transpose_rect [OF assms(1) L])
  have "has_shape ?t d L" by (simp add: has_shape_def)
  from transpose_rect [OF this assms(2)]
  have "transpose ?t = map (\<lambda>i. map (\<lambda>j. ?t ! j ! i) [0..<d]) [0..<L]" .
  also have "\<dots> = k"
    using assms(1) by (auto simp: has_shape_def intro!: nth_equalityI)
  finally show ?thesis by (simp add: t)
qed

lemma dot_sum: "length u = length v \<Longrightarrow> dot u v = (\<Sum>j<length u. u ! j * v ! j)"
  by (simp add: dot_def sum_list_sum_nth atLeast0LessThan)

lemma bmm_nth:
  assumes "has_shape a L n" and "has_shape b n d" and "i < L" and "c < d" and "0 < n"
  shows "bmm a b ! i ! c = (\<Sum>j<n. a ! i ! j * b ! j ! c)"
proof -
  have len: "length (a ! i) = n" using assms(1,3) by (simp add: has_shape_def)
  have "bmm a b ! i ! c = dot (a ! i) (map (\<lambda>j. b ! j ! c) [0..<n])"
    using assms by (simp add: bmm_def transpose_rect [OF assms(2,5)] has_shape_def)
  also have "\<dots> = (\<Sum>j<n. a ! i ! j * b ! j ! c)"
    using len by (simp add: dot_sum)
  finally show ?thesis .
qed

lemma bmm_shape:
  assumes "has_shape a L n" and "has_shape b n d" and "0 < n"
  shows "has_shape (bmm a b) L d"
  using assms(1) by (simp add: bmm_def transpose_rect [OF assms(2,3)] has_shape_def)

lemma bmm_transpose:
  assumes "has_shape k L d" and "0 < d"
  shows "bmm q (transpose k) = map (\<lambda>r. map (dot r) k) q"
  by (simp add: bmm_def transpose_transpose_rect [OF assms])

lemma size_last_shape: "has_shape x L d \<Longrightarrow> 0 < L \<Longrightarrow> size_last x = d"
  by (cases x) (auto simp: has_shape_def size_last_def)

subsection \<open>Softmax\<close>

lemma sum_list_exp_pos: "v \<noteq> [] \<Longrightarrow> 0 < sum_list (map exp (v::real list))"
proof -
  assume "v \<noteq> []"
  then obtain a w where v: "v = a # w" by (cases v) auto
  have "0 \<le> sum_list (map exp w)" by (rule sum_list_nonneg) auto
  moreover have "0 < exp a" by simp
  ultimately show ?thesis unfolding v by (simp add: add_pos_nonneg)
qed

lemma softmax_length: "length (softmax v) = length v"
  by (simp add: softmax_def)

lemma softmax_nonneg: "w \<in> set (softmax v) \<Longrightarrow> 0 \<le> w"
  by (auto simp: softmax_def intro!: divide_nonneg_nonneg sum_list_nonneg)

lemma softmax_sum: 
  assumes "v \<noteq> []" shows "sum_list (softmax v) = 1"
proof -
  let ?c = "sum_list (map exp v)"
  have c: "?c \<noteq> 0" using sum_list_exp_pos [OF assms] by simp
  have "sum_list (softmax v) = sum_list (map (\<lambda>s. exp s * inverse ?c) v)"
    by (simp add: softmax_def divide_inverse)
  also have "\<dots> = ?c * inverse ?c"
    by (simp add: sum_list_mult_const [symmetric] comp_def)
  finally show ?thesis using c by simp
qed

subsection \<open>Self-attention\<close>

lemma scores_eq:
  assumes "wf_SelfAttention att d" and "has_shape x L d" and "0 < d"
  shows "scores att x =
    map (\<lambda>q. map (\<lambda>k. dot q k / sqrt (real d)) (Linear_forward (key att) x))
      (Linear_forward (query att) x)"
proof (cases "L = 0")
  case True
  then show ?thesis using assms(2)
    by (simp add: scores_def has_shape_def Linear_forward_def bmm_def)
next
  case False
  have k: "has_shape (Linear_forward (key att) x) (length x) d"
    by (rule Linear_forward_shape [of _ d]) (use assms(1) in \<open>simp add: wf_SelfAttention_def\<close>)
  have "size_last x = d" using assms(2) False by (simp add: size_last_shape)
  then show ?thesis
    by (simp add: scores_def bmm_transpose [OF k assms(3)] comp_def)
qed

lemma scores_shape:
  assumes "wf_SelfAttention att d" and "has_shape x L d" and "0 < d"
  shows "has_shape (scores att x) L L"
  using assms(2) by (simp add: scores_eq [OF assms] has_shape_def Linear_forward_def)

lemma attention_weights_shape:
  assumes "wf_SelfAttention att d" and "has_shape x L d" and "0 < d"
  shows "has_shape (attention_weights att x) L L"
  using scores_shape [OF assms]
  by (simp add: attention_weights_def has_shape_def softmax_length)

lemma value_shape:
  assumes "wf_SelfAttention att d" and "has_shape x L d"
  shows "has_shape (Linear_forward (value_proj att) x) L d"
  using Linear_forward_shape [of "value_proj att" d d x] assms
  by (simp add: wf_SelfAttention_def has_shape_def)

lemma SelfAttention_forward_shape:
  assumes "wf_SelfAttention att d" and "has_shape x L d" and "0 < d"
  shows "has_shape (SelfAttention_forward att x) L d"
proof (cases "L = 0")
  case True
  then show ?thesis
    using attention_weights_shape [OF assms]
    by (simp add: SelfAttention_forward_def bmm_def has_shape_def)
next
  case False
  then show ?thesis unfolding SelfAttention_forward_def Let_def
    by (intro bmm_shape [OF attention_weights_shape [OF assms] value_shape [OF assms(1,2)]]) simp
qed

subsection \<open>Feed-forward, block and stack\<close>

lemma FeedForward_forward_shape:
  assumes "wf_FeedForward ff d h"
  shows "has_shape (FeedForward_forward ff x) (length x) d"
proof -
  have "wf_Linear (ff_2 ff) h d" using assms by (simp add: wf_FeedForward_def)
  from Linear_forward_shape [OF this, of "ReLU (Linear_forward (ff_0 ff) x)"]
  show ?thesis by (simp add: FeedForward_forward_def ReLU_def Linear_forward_def)
qed

lemma FeedForward_forward_rowwise:
  assumes "i < length x"
  shows "FeedForward_forward ff x ! i = hd (FeedForward_forward ff [x ! i])"
  using assms by (simp add: FeedForward_forward_def ReLU_def Linear_forward_def)

lemma TransformerBlock_forward_shape:
  assumes "wf_TransformerBlock blk d h" and "has_shape x L d" and "0 < d"
  shows "has_shape (TransformerBlock_forward blk x) L d"
proof -
  let ?att = "SelfAttention_forward (attention blk) x"
  let ?x1 = "LayerNorm_forward (norm1 blk) (madd x ?att)"
  let ?fw = "FeedForward_forward (feed_forward blk) ?x1"
  have wa: "wf_SelfAttention (attention blk) d" and wf: "wf_FeedForward (feed_forward blk) d h"
    and w1: "wf_LayerNorm (norm1 blk) d" and w2: "wf_LayerNorm (norm2 blk) d"
    using assms(1) by (simp_all add: wf_TransformerBlock_def)
  have a: "has_shape ?att L d"
    using SelfAttention_forward_shape [OF wa assms(2,3)] .
  have x1: "has_shape ?x1 L d"
    by (intro LayerNorm_forward_shape [OF w1] madd_shape assms(2) a)
  then have len: "length ?x1 = L" by (simp add: has_shape_def)
  have fw: "has_shape ?fw L d"
    using FeedForward_forward_shape [OF wf, of ?x1] len by simp
  have "has_shape (LayerNorm_forward (norm2 blk) (madd ?x1 ?fw)) L d"
    by (intro LayerNorm_forward_shape [OF w2] madd_shape x1 fw)
  then show ?thesis by (simp add: TransformerBlock_forward_def Let_def)
qed

lemma Sequential_forward_shape:
  assumes "\<forall>blk \<in> set blocks. wf_TransformerBlock blk d h" and "has_shape x L d" and "0 < d"
  shows "has_shape (Sequential_forward blocks x) L d"
  using assms(1,2) unfolding Sequential_forward_def
proof (induction blocks arbitrary: x)
  case Nil
  then show ?case by simp
next
  case (Cons blk blocks)
  have "has_shape (TransformerBlock_forward blk x) L d"
    using Cons.prems assms(3) by (intro TransformerBlock_forward_shape [of _ _ h]) simp_all
  with Cons show ?case by simp
qed

subsection \<open>The positional table and the positional addition\<close>

lemma div_term_nth:
  "k < (d + 1) div 2 \<Longrightarrow> div_term d ! k = exp (real (2 * k) * (- ln 10000 / real d))"
  by (simp add: div_term_def)

lemma length_div_term: "length (div_term d) = (d + 1) div 2"
  by (simp add: div_term_def)

lemma pe_table_nth:
  assumes "p < m" and "c < d"
  shows "pe_table d m ! p ! c =
    (if even c then sin (real p * div_term d ! (c div 2))
     else cos (real p * div_term d ! (c div 2)))"
proof (cases "even c")
  case True
  then have "c div 2 < (d + 1) div 2" using assms(2) by (auto elim!: evenE)
  with assms True show ?thesis
    by (cases c) (simp_all add: pe_table_def set_cols_def Let_def length_div_term)
next
  case False
  then have "c div 2 < (d + 1) div 2" using assms(2) by (auto elim!: oddE)
  moreover from False have "1 \<le> c" by (cases c) auto
  moreover have "(c - 1) div 2 = c div 2" using False by (auto elim!: oddE)
  ultimately show ?thesis using assms False
    by (simp add: pe_table_def set_cols_def Let_def length_div_term)
qed

lemma scaled_position:
  assumes "0 < d"
  shows "real p * exp (real j * (- ln 10000 / real d)) = real p / 10000 powr (real j / real d)"
proof -
  have "10000 powr (real j / real d) = exp (real j / real d * ln (10000::real))"
    by (simp add: powr_def)
  moreover have "real j * (- ln 10000 / real d) = - (real j / real d * ln (10000::real))"
    by simp
  ultimately show ?thesis by (simp only: exp_minus divide_inverse)
qed

lemma pe_table_formula:
  assumes "p < m" and "c < d"
  shows "pe_table d m ! p ! c =
    (if even c then sin (real p / 10000 powr (real c / real d))
     else cos (real p / 10000 powr (real (c - 1) / real d)))"
proof -
  have d: "0 < d" using assms(2) by simp
  show ?thesis
  proof (cases "even c")
    case True
    then have k: "c div 2 < (d + 1) div 2" and c: "2 * (c div 2) = c"
      using assms(2) by (auto elim!: evenE)
    have "real p * div_term d ! (c div 2) = real p / 10000 powr (real c / real d)"
      by (simp only: div_term_nth [OF k] c scaled_position [OF d])
    then show ?thesis
      using True by (simp only: pe_table_nth [OF assms] if_True)
  next
    case False
    then have k: "c div 2 < (d + 1) div 2" and c: "2 * (c div 2) = c - 1"
      using assms(2) by (auto elim!: oddE)
    have "real p * div_term d ! (c div 2) = real p / 10000 powr (real (c - 1) / real d)"
      by (simp only: div_term_nth [OF k] c scaled_position [OF d])
    then show ?thesis
      using False by (simp only: pe_table_nth [OF assms] if_False)
  qed
qed

lemma pe_table_shape: "has_shape (pe_table d m) m d"
  by (simp add: has_shape_def pe_table_def set_cols_def Let_def)

lemma pe_table_row0:
  assumes "0 < m"
  shows "pe_table d m ! 0 = map (\<lambda>c. if even c then 0 else 1) [0..<d]"
proof (rule nth_equalityI)
  show "length (pe_table d m ! 0) = length (map (\<lambda>c. if even c then 0 else 1 :: real) [0..<d])"
    using pe_table_shape [of d m] assms by (simp add: has_shape_iff_nth)
next
  fix c assume "c < length (pe_table d m ! 0)"
  then have c: "c < d" using pe_table_shape [of d m] assms by (simp add: has_shape_iff_nth)
  show "pe_table d m ! 0 ! c = map (\<lambda>c. if even c then 0 else 1) [0..<d] ! c"
    using c by (simp add: pe_table_nth [OF assms c])
qed

lemma PositionalEncoding_init_even:
  assumes "even d" and "0 < d"
  shows "PositionalEncoding_init d m = Inr \<lparr>embedding_dim = d, pe = pe_table d m\<rparr>"
  using assms by (auto simp: PositionalEncoding_init_def elim!: evenE)

lemma PositionalEncoding_init_returns:
  "(\<exists>self. PositionalEncoding_init d m = Inr self) \<longleftrightarrow> (even d \<and> 0 < d) \<or> d = 1"
proof -
  have "(d + 1) div 2 \<noteq> d div 2 \<and> (d + 1) div 2 \<noteq> 1 \<longleftrightarrow> odd d \<and> d \<noteq> 1"
    by presburger
  then show ?thesis by (auto simp: PositionalEncoding_init_def)
qed

lemma PositionalEncoding_init_Inr:
  assumes "PositionalEncoding_init d M = Inr self"
  shows "0 < d \<and> pe self = pe_table d M"
  using assms by (auto simp: PositionalEncoding_init_def split: if_splits)

lemma PositionalEncoding_forward_fits:
  assumes "length x \<le> length (pe self)"
  shows "PositionalEncoding_forward self x = Inr (madd x (take (length x) (pe self)))"
  using assms by (simp add: PositionalEncoding_forward_def Let_def)

lemma PositionalEncoding_forward_too_long:
  assumes "length (pe self) < length x" and "1 < length (pe self)"
  shows "PositionalEncoding_forward self x = Inl RuntimeError_size"
  using assms by (simp add: PositionalEncoding_forward_def Let_def)

lemma PositionalEncoding_forward_shape:
  assumes "has_shape (pe self) M d" and "has_shape x L d" and "L \<le> M"
  shows "\<exists>y. PositionalEncoding_forward self x = Inr y \<and> has_shape y L d
           \<and> (\<forall>i<L. y ! i = map2 (+) (x ! i) (pe self ! i))"
proof -
  have len: "length x \<le> length (pe self)" using assms by (simp add: has_shape_def)
  have "has_shape (take (length x) (pe self)) L d"
    using assms by (auto simp: has_shape_def dest: in_set_takeD)
  then have "has_shape (madd x (take (length x) (pe self))) L d"
    by (intro madd_shape assms(2))
  moreover have "\<forall>i<L. madd x (take (length x) (pe self)) ! i = map2 (+) (x ! i) (pe self ! i)"
    using assms by (simp add: madd_def has_shape_def)
  ultimately show ?thesis by (simp add: PositionalEncoding_forward_fits [OF len])
qed

subsection \<open>The forward pass of the model\<close>

lemma bindE_Inr [simp]: "bindE (Inr v) f = f v"
  by (simp add: bindE_def)

lemma bindE_Inl [simp]: "bindE (Inl e) f = Inl e"
  by (simp add: bindE_def)

lemma Embedding_forward_in_range:
  assumes "\<forall>i \<in> set ids. 0 \<le> i \<and> i < int (length (emb_weight self))"
  shows "Embedding_forward self (LongTensor ids) = Inr (map (\<lambda>i. emb_weight self ! nat i) ids)"
  using assms by (simp add: Embedding_forward_def)

lemma Embedding_forward_out_of_range:
  assumes "i \<in> set ids" and "i < 0 \<or> int (length (emb_weight self)) \<le> i"
  shows "Embedding_forward self (LongTensor ids) = Inl IndexError"
proof -
  have "\<not> (\<forall>i \<in> set ids. 0 \<le> i \<and> i < int (length (emb_weight self)))"
    using assms by force
  then show ?thesis by (simp add: Embedding_forward_def)
qed

lemma Embedding_forward_shape:
  assumes "has_shape (emb_weight self) V d"
    and "\<forall>i \<in> set ids. 0 \<le> i \<and> i < int V"
  shows "has_shape (map (\<lambda>i. emb_weight self ! nat i) ids) (length ids) d"
  using assms by (auto simp: has_shape_def)

lemma torch_tensor_nonempty: "ids \<noteq> [] \<Longrightarrow> torch_tensor ids = LongTensor ids"
  by (simp add: torch_tensor_def)

lemma SimpleLLM_forward_ok:
  assumes m: "is_SimpleLLM V d h n m"
    and ids: "\<forall>i \<in> set ids. 0 \<le> i \<and> i < int V"
    and len: "length ids \<le> 5000"
  shows "\<exists>out. SimpleLLM_forward m (LongTensor ids) = Inr out \<and> has_shape out (length ids) V"
proof -
  let ?E = "embedding m"
  have E: "has_shape (emb_weight ?E) V d" and blocks: "\<forall>blk \<in> set (transformer_blocks m). wf_TransformerBlock blk d h"
    and out: "wf_Linear (output_proj m) d V"
    and init: "PositionalEncoding_init d 5000 = Inr (positional_encoding m)"
    using m by (simp_all add: is_SimpleLLM_def)
  from PositionalEncoding_init_Inr [OF init]
  have d: "0 < d" and pe: "pe (positional_encoding m) = pe_table d 5000" by simp_all
  have V: "length (emb_weight ?E) = V" using E by (simp add: has_shape_def)
  let ?x0 = "map (\<lambda>i. emb_weight ?E ! nat i) ids"
  have e: "Embedding_forward ?E (LongTensor ids) = Inr ?x0"
    using ids by (intro Embedding_forward_in_range) (simp add: V)
  have x0: "has_shape ?x0 (length ids) d" by (rule Embedding_forward_shape [OF E ids])
  have "has_shape (pe (positional_encoding m)) 5000 d" by (simp add: pe pe_table_shape)
  from PositionalEncoding_forward_shape [OF this x0 len]
  obtain x1 where p: "PositionalEncoding_forward (positional_encoding m) ?x0 = Inr x1"
    and x1: "has_shape x1 (length ids) d" by blast
  let ?x2 = "Sequential_forward (transformer_blocks m) x1"
  have x2: "has_shape ?x2 (length ids) d" by (rule Sequential_forward_shape [OF blocks x1 d])
  then have "length ?x2 = length ids" by (simp add: has_shape_def)
  with Linear_forward_shape [OF out, of ?x2]
  have "has_shape (Linear_forward (output_proj m) ?x2) (length ids) V" by simp
  then show ?thesis by (simp add: SimpleLLM_forward_def e p Let_def)
qed

lemma SimpleLLM_forward_too_long:
  assumes m: "is_SimpleLLM V d h n m" and len: "5000 < length ids"
  shows "SimpleLLM_forward m (LongTensor ids) =
     (if \<forall>i \<in> set ids. 0 \<le> i \<and> i < int V then Inl RuntimeError_size else Inl IndexError)"
proof -
  let ?E = "embedding m"
  have E: "has_shape (emb_weight ?E) V d"
    and init: "PositionalEncoding_init d 5000 = Inr (positional_encoding m)"
    using m by (simp_all add: is_SimpleLLM_def)
  have V: "length (emb_weight ?E) = V" using E by (simp add: has_shape_def)
  have pe: "length (pe (positional_encoding m)) = 5000"
    using PositionalEncoding_init_Inr [OF init] pe_table_shape [of d 5000]
    by (simp add: has_shape_def)
  show ?thesis
  proof (cases "\<forall>i \<in> set ids. 0 \<le> i \<and> i < int V")
    case True
    then have e: "Embedding_forward ?E (LongTensor ids) = Inr (map (\<lambda>i. emb_weight ?E ! nat i) ids)"
      by (intro Embedding_forward_in_range) (simp add: V)
    have "PositionalEncoding_forward (positional_encoding m) (map (\<lambda>i. emb_weight ?E ! nat i) ids)
        = Inl RuntimeError_size"
      using len by (intro PositionalEncoding_forward_too_long) (simp_all add: pe)
    with True show ?thesis by (simp add: SimpleLLM_forward_def e)
  next
    case False
    then obtain i where "i \<in> set ids" and "i < 0 \<or> int V \<le> i" by auto
    then have "Embedding_forward ?E (LongTensor ids) = Inl IndexError"
      by (intro Embedding_forward_out_of_range [of i]) (simp_all add: V)
    with False show ?thesis by (simp add: SimpleLLM_forward_def)
  qed
qed

lemma SimpleLLM_forward_out_of_range:
  assumes "i \<in> set ids" and "i < 0 \<or> int (length (emb_weight (embedding m))) \<le> i"
  shows "SimpleLLM_forward m (LongTensor ids) = Inl IndexError"
  by (simp add: SimpleLLM_forward_def Embedding_forward_out_of_range [OF assms])

subsection \<open>The small model is a model\<close>

lemma wf_const_Linear: "wf_Linear (const_Linear n_in n_out c) n_in n_out"
  by (simp add: wf_Linear_def const_Linear_def has_shape_def)

lemma wf_tiny_block: "wf_TransformerBlock tiny_block 2 3"
  by (simp add: wf_TransformerBlock_def tiny_block_def wf_SelfAttention_def wf_FeedForward_def
      wf_LayerNorm_def wf_const_Linear)

lemma is_SimpleLLM_tiny_model: "is_SimpleLLM 2 2 3 1 tiny_model"
  by (simp add: is_SimpleLLM_def tiny_model_def wf_tiny_block wf_const_Linear
      PositionalEncoding_init_even has_shape_def)

subsection \<open>Tokenization and the vocabulary\<close>

lemma mapE_total:
  assumes "\<And>x. x \<in> set xs \<Longrightarrow> f x = Inr (g x)"
  shows "mapE f xs = Inr (map g xs)"
  using assms by (induction xs) simp_all

lemma split_acc_spaces: "\<forall>c \<in> set s. is_space c \<Longrightarrow> split_acc [] s = []"
  by (induction s) simp_all

lemma tokenize_with_unk:
  assumes "voc ''<UNK>'' = Some unk"
  shows "tokenize s voc = Inr (map (\<lambda>word. case voc word of Some v \<Rightarrow> v | None \<Rightarrow> unk) (str_split s))"
  unfolding tokenize_def by (rule mapE_total) (simp add: assms)

lemma tokenize_ran:
  assumes "voc ''<UNK>'' = Some unk" and "tokenize s voc = Inr ids"
  shows "set ids \<subseteq> ran voc"
proof -
  have "(case voc word of Some v \<Rightarrow> v | None \<Rightarrow> unk) \<in> ran voc" for word
    using assms(1) by (auto simp: ran_def split: option.splits)
  with assms(2) show ?thesis
    by (auto simp: tokenize_with_unk [of voc unk, OF assms(1)])
qed

lemma vocab_size_eq: "vocab_size = 73"
  by (simp add: vocab_size_def vocab_items_def)

lemma vocab_unk: "vocab ''<UNK>'' = Some 5"
  by (simp add: vocab_def vocab_items_def)

lemma vocab_items_range: "\<forall>kv \<in> set vocab_items. 0 \<le> snd kv \<and> snd kv < 73"
  by (simp add: vocab_items_def)

lemma ran_vocab: "v \<in> ran vocab \<Longrightarrow> 0 \<le> v \<and> v < int vocab_size"
proof -
  assume "v \<in> ran vocab"
  then obtain k where "map_of vocab_items k = Some v" by (auto simp: ran_def vocab_def)
  then have "(k, v) \<in> set vocab_items" by (rule map_of_SomeD)
  with vocab_items_range show ?thesis by (force simp: vocab_size_eq)
qed

lemma vocab_items_values: "map snd vocab_items = [0..72]"
  by (simp add: vocab_items_def upto.simps)

lemma vocab_items_distinct: "distinct (map fst vocab_items)"
  by (simp add: vocab_items_def)

lemma ran_vocab_eq: "ran vocab = {0..72}"
proof -
  have "ran vocab = snd ` set vocab_items"
    unfolding vocab_def by (rule ran_distinct [OF vocab_items_distinct])
  also have "\<dots> = set (map snd vocab_items)" by simp
  also have "\<dots> = {0..72}" by (simp only: vocab_items_values set_upto)
  finally show ?thesis .
qed

subsection \<open>Arg-max and the decoder\<close>

lemma argmax_list_less: "v \<noteq> [] \<Longrightarrow> argmax_list v < length v"
  by (induction v rule: argmax_list.induct) (auto simp: Let_def)

lemma argmax_list_max: "j < length v \<Longrightarrow> v ! j \<le> v ! argmax_list v"
proof (induction v arbitrary: j rule: argmax_list.induct)
  case 1
  then show ?case by simp
next
  case (2 a)
  then show ?case by simp
next
  case (3 a b v)
  show ?case
  proof (cases j)
    case 0
    then show ?thesis by (auto simp: Let_def)
  next
    case (Suc k)
    with "3.prems" have "(b # v) ! k \<le> (b # v) ! argmax_list (b # v)"
      by (intro "3.IH") simp
    with Suc show ?thesis by (auto simp: Let_def)
  qed
qed

lemma argmax_list_first: "j < argmax_list v \<Longrightarrow> v ! j < v ! argmax_list v"
proof (induction v arbitrary: j rule: argmax_list.induct)
  case 1
  then show ?case by simp
next
  case (2 a)
  then show ?case by simp
next
  case (3 a b v)
  from "3.prems" have gt: "a < (b # v) ! argmax_list (b # v)"
    and am: "argmax_list (a # b # v) = Suc (argmax_list (b # v))"
    by (auto simp: Let_def split: if_splits)
  show ?case
  proof (cases j)
    case 0
    then show ?thesis using gt am by simp
  next
    case (Suc k)
    with "3.prems" am have "k < argmax_list (b # v)" by simp
    then have "(b # v) ! k < (b # v) ! argmax_list (b # v)" by (rule "3.IH")
    with Suc am show ?thesis by simp
  qed
qed

lemma predict_forward:
  "predict m ids =
     (bindE (SimpleLLM_forward m (torch_tensor ids))
        (\<lambda>out. bindE (last_position out) (\<lambda>logits. argmax logits)), m)"
  by (simp add: predict_def SimpleLLM_call_def Let_def)

subsection \<open>The training loop\<close>

lemma foldE_map: "foldE f s (map g xs) = foldE (\<lambda>s x. f s (g x)) s xs"
  by (induction xs arbitrary: s) (simp_all split: sum.splits)

lemma foldE_cong_set:
  assumes "\<And>s x. x \<in> set xs \<Longrightarrow> f s x = g s x"
  shows "foldE f s xs = foldE g s xs"
  using assms by (induction xs arbitrary: s) (simp_all split: sum.splits)

lemma train_step_forward_error:
  assumes "SimpleLLM_forward (model st) (torch_tensor (take i sentence)) = Inl e"
  shows "train_step backward step sentence st i =
    (if length sentence \<le> i then Inl IndexError else Inl e)"
  using assms by (simp add: train_step_def SimpleLLM_call_def Let_def)

lemma train_step_online_update:
  assumes "1 \<le> i" and "i < length sentence"
  shows "train_step backward step sentence st i =
         online_update backward step st (take i sentence, sentence ! i)"
proof -
  have "take i sentence \<noteq> []" using assms by auto
  then have t: "torch_tensor (take i sentence) = LongTensor (take i sentence)"
    by (rule torch_tensor_nonempty)
  show ?thesis
    using assms(2)
    by (cases "SimpleLLM_forward (model st) (LongTensor (take i sentence))")
      (simp_all add: train_step_def online_update_def example_calls_def SimpleLLM_call_def t
        Let_def bindE_def split: sum.splits prod.splits)
qed

lemma train_sentence_fold:
  "train_sentence backward step st sentence =
     foldE (online_update backward step) st (split_points sentence)"
proof -
  have "foldE (train_step backward step sentence) st [1..<length sentence] =
      foldE (\<lambda>s i. online_update backward step s (take i sentence, sentence ! i)) st
        [1..<length sentence]"
    by (rule foldE_cong_set) (simp add: train_step_online_update)
  then show ?thesis
    by (simp add: train_sentence_def split_points_def foldE_map)
qed

lemma online_update_calls:
  assumes "online_update backward step st ex = Inr st'"
  shows "calls st' = calls st @ example_calls ex"
  using assms
  by (auto simp: online_update_def example_calls_def bindE_def Let_def
      split: sum.splits prod.splits)

lemma foldE_online_update_calls:
  assumes "foldE (online_update backward step) st exs = Inr st'"
  shows "calls st' = calls st @ concat (map example_calls exs)"
  using assms
proof (induction exs arbitrary: st)
  case Nil
  then show ?case by simp
next
  case (Cons ex exs)
  then obtain st1 where 1: "online_update backward step st ex = Inr st1"
    and 2: "foldE (online_update backward step) st1 exs = Inr st'"
    by (auto split: sum.splits)
  from online_update_calls [OF 1] Cons.IH [OF 2] show ?case by simp
qed

lemma online_update_result:
  assumes "online_update backward step st (prefix, next_token) = Inr st'"
  shows "\<exists>out. SimpleLLM_forward (model st) (LongTensor prefix) = Inr out \<and> out \<noteq> []
          \<and> 0 \<le> next_token \<and> next_token < int (length (last out))
          \<and> total_loss st' = total_loss st - ln (softmax (last out) ! nat next_token)
          \<and> (optimizer st', model st') =
               step (optimizer st) (backward (model st) prefix next_token) (model st)
          \<and> grads st' = Some (backward (model st) prefix next_token)"
  using assms
  by (auto simp: online_update_def bindE_def Let_def last_position_def CrossEntropyLoss_def
      split: sum.splits prod.splits if_splits)

lemma online_update_ok:
  assumes m: "is_SimpleLLM V d h n (model st)"
    and step: "\<And>opt g m. is_SimpleLLM V d h n m \<Longrightarrow> is_SimpleLLM V d h n (snd (step opt g m))"
    and prefix: "prefix \<noteq> []" "\<forall>t \<in> set prefix. 0 \<le> t \<and> t < int V" "length prefix \<le> 5000"
    and target: "0 \<le> next_token" "next_token < int V"
  shows "\<exists>st'. online_update backward step st (prefix, next_token) = Inr st'
           \<and> is_SimpleLLM V d h n (model st')"
proof -
  from SimpleLLM_forward_ok [OF m prefix(2,3)]
  obtain out where f: "SimpleLLM_forward (model st) (LongTensor prefix) = Inr out"
    and s: "has_shape out (length prefix) V" by blast
  from s prefix(1) have o: "out \<noteq> []" by (auto simp: has_shape_def)
  then have "last out \<in> set out" by simp
  with s have len: "length (last out) = V" by (simp add: has_shape_def)
  obtain opt m' where r: "step (optimizer st) (backward (model st) prefix next_token) (model st) = (opt, m')"
    by (cases "step (optimizer st) (backward (model st) prefix next_token) (model st)")
  from step [OF m, of "optimizer st" "backward (model st) prefix next_token"] r
  have "is_SimpleLLM V d h n m'" by simp
  then show ?thesis
    using target
    by (simp add: online_update_def f last_position_def o CrossEntropyLoss_def len Let_def r)
qed

lemma foldE_online_update_ok:
  assumes step: "\<And>opt g m. is_SimpleLLM V d h n m \<Longrightarrow> is_SimpleLLM V d h n (snd (step opt g m))"
    and exs: "\<forall>ex \<in> set exs. fst ex \<noteq> [] \<and> (\<forall>t \<in> set (fst ex). 0 \<le> t \<and> t < int V)
                \<and> length (fst ex) \<le> 5000 \<and> 0 \<le> snd ex \<and> snd ex < int V"
    and m: "is_SimpleLLM V d h n (model st)"
  shows "\<exists>st'. foldE (online_update backward step) st exs = Inr st'
           \<and> is_SimpleLLM V d h n (model st')"
  using exs m
proof (induction exs arbitrary: st)
  case Nil
  then show ?case by simp
next
  case (Cons ex exs)
  obtain prefix next_token where ex: "ex = (prefix, next_token)" by (cases ex)
  from Cons.prems ex
  have "\<exists>st'. online_update backward step st (prefix, next_token) = Inr st'
           \<and> is_SimpleLLM V d h n (model st')"
    by (intro online_update_ok step) simp_all
  then obtain st1 where 1: "online_update backward step st ex = Inr st1"
    and 2: "is_SimpleLLM V d h n (model st1)" using ex by blast
  from Cons.IH [OF _ 2] Cons.prems(1)
  obtain st' where "foldE (online_update backward step) st1 exs = Inr st'"
    and "is_SimpleLLM V d h n (model st')" by auto
  with 1 show ?case by simp
qed

lemma split_points_ok:
  assumes "\<forall>t \<in> set sentence. 0 \<le> t \<and> t < int V" and "length sentence \<le> 5001"
  shows "\<forall>ex \<in> set (split_points sentence). fst ex \<noteq> [] \<and> (\<forall>t \<in> set (fst ex). 0 \<le> t \<and> t < int V)
                \<and> length (fst ex) \<le> 5000 \<and> 0 \<le> snd ex \<and> snd ex < int V"
proof
  fix ex assume "ex \<in> set (split_points sentence)"
  then obtain i where i: "1 \<le> i" "i < length sentence"
    and ex: "ex = (take i sentence, sentence ! i)"
    by (auto simp: split_points_def)
  have "set (take i sentence) \<subseteq> set sentence" by (rule set_take_subset)
  moreover have "sentence ! i \<in> set sentence" using i by simp
  ultimately show "fst ex \<noteq> [] \<and> (\<forall>t \<in> set (fst ex). 0 \<le> t \<and> t < int V)
                \<and> length (fst ex) \<le> 5000 \<and> 0 \<le> snd ex \<and> snd ex < int V"
    using assms i by (auto simp: ex)
qed

lemma foldE_concat_map:
  "foldE (\<lambda>s x. foldE f s (g x)) s xs = foldE f s (concat (map g xs))"
proof (induction xs arbitrary: s)
  case Nil
  then show ?case by simp
next
  case (Cons x xs)
  have app: "foldE f s (ys @ zs) = (case foldE f s ys of Inl e \<Rightarrow> Inl e | Inr s' \<Rightarrow> foldE f s' zs)"
    for s ys zs
    by (induction ys arbitrary: s) (simp_all split: sum.splits)
  show ?case by (simp add: app Cons.IH split: sum.splits)
qed

lemma train_epoch_fold:
  "train_epoch backward step tokenized_data st epoch =
     foldE (online_update backward step) (st\<lparr>total_loss := 0\<rparr>)
       (concat (map split_points tokenized_data))"
proof -
  have "train_sentence backward step =
      (\<lambda>s sentence. foldE (online_update backward step) s (split_points sentence))"
    by (intro ext) (rule train_sentence_fold)
  then show ?thesis by (simp add: train_epoch_def foldE_concat_map)
qed

lemma train_epoch_ok:
  assumes step: "\<And>opt g m. is_SimpleLLM V d h n m \<Longrightarrow> is_SimpleLLM V d h n (snd (step opt g m))"
    and data: "\<forall>sentence \<in> set tokenized_data.
        (\<forall>t \<in> set sentence. 0 \<le> t \<and> t < int V) \<and> length sentence \<le> 5001"
    and m: "is_SimpleLLM V d h n (model st)"
  shows "\<exists>st'. train_epoch backward step tokenized_data st epoch = Inr st'
           \<and> is_SimpleLLM V d h n (model st')"
proof -
  have "\<forall>ex \<in> set (concat (map split_points tokenized_data)).
      fst ex \<noteq> [] \<and> (\<forall>t \<in> set (fst ex). 0 \<le> t \<and> t < int V)
        \<and> length (fst ex) \<le> 5000 \<and> 0 \<le> snd ex \<and> snd ex < int V"
  proof
    fix ex assume "ex \<in> set (concat (map split_points tokenized_data))"
    then obtain sentence where s: "sentence \<in> set tokenized_data"
      and ex: "ex \<in> set (split_points sentence)" by auto
    from s data have "\<forall>t \<in> set sentence. 0 \<le> t \<and> t < int V" and "length sentence \<le> 5001"
      by simp_all
    from split_points_ok [OF this] ex
    show "fst ex \<noteq> [] \<and> (\<forall>t \<in> set (fst ex). 0 \<le> t \<and> t < int V)
        \<and> length (fst ex) \<le> 5000 \<and> 0 \<le> snd ex \<and> snd ex < int V" by blast
  qed
  moreover have "is_SimpleLLM V d h n (model (st\<lparr>total_loss := 0\<rparr>))" using m by simp
  ultimately show ?thesis
    unfolding train_epoch_fold by (intro foldE_online_update_ok step) simp_all
qed

lemma train_ok:
  assumes step: "\<And>opt g m. is_SimpleLLM V d h n m \<Longrightarrow> is_SimpleLLM V d h n (snd (step opt g m))"
    and data: "\<forall>sentence \<in> set tokenized_data.
        (\<forall>t \<in> set sentence. 0 \<le> t \<and> t < int V) \<and> length sentence \<le> 5001"
    and m: "is_SimpleLLM V d h n (model st)"
  shows "\<exists>st'. train backward step tokenized_data st = Inr st' \<and> is_SimpleLLM V d h n (model st')"
proof -
  have "\<exists>st'. foldE (train_epoch backward step tokenized_data) st epochs = Inr st'
      \<and> is_SimpleLLM V d h n (model st')" for epochs
    using m
  proof (induction epochs arbitrary: st)
    case Nil
    then show ?case by simp
  next
    case (Cons epoch epochs)
    from train_epoch_ok [of V d h n step tokenized_data st backward epoch, OF step data Cons.prems]
    obtain st1 where 1: "train_epoch backward step tokenized_data st epoch = Inr st1"
      and 2: "is_SimpleLLM V d h n (model st1)" by blast
    from Cons.IH [OF 2] 1 show ?case by simp
  qed
  then show ?thesis by (simp add: train_def)
qed

section \<open>The claims of the specification\<close>

subsection \<open>C1: the training loop updates after every prefix example\<close>

text \<open>
  Claim C1. For every sentence and every split point \<open>i\<close> from 1 to length - 1, the
  training loop runs one forward pass on the prefix \<^verbatim>\<open>sentence[0:i]\<close>, takes the
  cross-entropy of the logits at the last position of that pass against the next token
  \<^verbatim>\<open>sentence[i]\<close>, and updates the parameters once, before the next example.

  The loop over a sentence is the fold of \<open>online_update\<close> over \<open>split_points\<close>, and an
  epoch is that fold over the examples of all sentences in order, from a zeroed
  \<open>total_loss\<close>. When the loop over a sentence returns, the calls it made are, example
  after example, \<open>ZeroGrad\<close>, \<open>Forward\<close> on the prefix, \<open>Loss\<close> against the next token,
  \<open>Backward\<close>, \<open>Step\<close>: one \<open>Step\<close> for each of the length - 1 examples. One example that
  returns has run the forward pass on the prefix with the parameters of that moment,
  added the cross-entropy of the last row of logits at the next token to \<open>total_loss\<close>,
  and replaced the optimizer state and the model by the outcome of one \<open>step\<close> on the
  gradient of this example. The loop does return on a model as constructed, tokens of
  the model's vocabulary and a sentence of at most 5001 tokens, when \<open>step\<close> keeps the
  shapes of the parameters and the positional table.
\<close>

theorem train_sentence_spec:
  "train_sentence backward step st sentence =
     foldE (online_update backward step) st (split_points sentence)
   \<and> train_epoch backward step tokenized_data st epoch =
       foldE (online_update backward step) (st\<lparr>total_loss := 0\<rparr>)
         (concat (map split_points tokenized_data))
   \<and> (\<forall>st'. train_sentence backward step st sentence = Inr st' \<longrightarrow>
         calls st' = calls st @ concat (map example_calls (split_points sentence))
       \<and> length (filter (\<lambda>c. c = Step) (concat (map example_calls (split_points sentence))))
           = length sentence - 1)
   \<and> (\<forall>prefix next_token st'.
         online_update backward step st (prefix, next_token) = Inr st' \<longrightarrow>
         (\<exists>out. SimpleLLM_forward (model st) (LongTensor prefix) = Inr out \<and> out \<noteq> []
            \<and> total_loss st' = total_loss st - ln (softmax (last out) ! nat next_token)
            \<and> (optimizer st', model st') =
                 step (optimizer st) (backward (model st) prefix next_token) (model st)))
   \<and> (is_SimpleLLM V d h n (model st)
        \<and> (\<forall>opt g m. is_SimpleLLM V d h n m \<longrightarrow> is_SimpleLLM V d h n (snd (step opt g m)))
        \<and> (\<forall>t \<in> set sentence. 0 \<le> t \<and> t < int V) \<and> length sentence \<le> 5001 \<longrightarrow>
       (\<exists>st'. train_sentence backward step st sentence = Inr st'
          \<and> is_SimpleLLM V d h n (model st')))"
proof (intro conjI allI impI)
  show "train_sentence backward step st sentence =
     foldE (online_update backward step) st (split_points sentence)"
    by (rule train_sentence_fold)
next
  show "train_epoch backward step tokenized_data st epoch =
       foldE (online_update backward step) (st\<lparr>total_loss := 0\<rparr>)
         (concat (map split_points tokenized_data))"
    by (rule train_epoch_fold)
next
  fix st' assume "train_sentence backward step st sentence = Inr st'"
  then show "calls st' = calls st @ concat (map example_calls (split_points sentence))"
    by (simp add: train_sentence_fold foldE_online_update_calls)
next
  have "length (filter (\<lambda>c. c = Step) (concat (map example_calls exs))) = length exs" for exs
    by (induction exs) (auto simp: example_calls_def)
  then have "length (filter (\<lambda>c. c = Step) (concat (map example_calls (split_points sentence))))
           = length (split_points sentence)" .
  also have "\<dots> = length sentence - 1" by (simp add: split_points_def)
  finally show "length (filter (\<lambda>c. c = Step) (concat (map example_calls (split_points sentence))))
           = length sentence - 1" .
next
  fix prefix next_token st'
  assume "online_update backward step st (prefix, next_token) = Inr st'"
  from online_update_result [OF this]
  show "\<exists>out. SimpleLLM_forward (model st) (LongTensor prefix) = Inr out \<and> out \<noteq> []
            \<and> total_loss st' = total_loss st - ln (softmax (last out) ! nat next_token)
            \<and> (optimizer st', model st') =
                 step (optimizer st) (backward (model st) prefix next_token) (model st)"
    by blast
next
  assume a: "is_SimpleLLM V d h n (model st)
        \<and> (\<forall>opt g m. is_SimpleLLM V d h n m \<longrightarrow> is_SimpleLLM V d h n (snd (step opt g m)))
        \<and> (\<forall>t \<in> set sentence. 0 \<le> t \<and> t < int V) \<and> length sentence \<le> 5001"
  then have step: "\<And>opt g m. is_SimpleLLM V d h n m \<Longrightarrow> is_SimpleLLM V d h n (snd (step opt g m))"
    by blast
  from a have "\<forall>t \<in> set sentence. 0 \<le> t \<and> t < int V" and "length sentence \<le> 5001" by simp_all
  from split_points_ok [OF this] a
  have "\<exists>st'. foldE (online_update backward step) st (split_points sentence) = Inr st'
           \<and> is_SimpleLLM V d h n (model st')"
    by (intro foldE_online_update_ok step) simp_all
  then show "\<exists>st'. train_sentence backward step st sentence = Inr st'
          \<and> is_SimpleLLM V d h n (model st')"
    by (simp add: train_sentence_fold)
qed

theorem train_sentence_spec_witness:
  "\<exists>st'. train_sentence (\<lambda>m p t. ()) (\<lambda>opt g m. (opt, m))
       \<lparr>model = tiny_model, optimizer = (), grads = None, total_loss = 0, calls = []\<rparr>
       [0, 1, 0] = Inr st'
     \<and> calls st' = [ZeroGrad, Forward [0], Loss 1, Backward, Step,
                    ZeroGrad, Forward [0, 1], Loss 0, Backward, Step]"
proof -
  let ?st = "\<lparr>model = tiny_model, optimizer = (), grads = None :: unit option,
      total_loss = 0, calls = []\<rparr>"
  let ?step = "\<lambda>(opt::unit) (g::unit) (m::SimpleLLM). (opt, m)"
  note t = train_sentence_spec [of "\<lambda>m p t. ()" ?step ?st "[0, 1, 0]" _ _ 2 2 3 1]
  have "is_SimpleLLM 2 2 3 1 (model ?st)
        \<and> (\<forall>opt g m. is_SimpleLLM 2 2 3 1 m \<longrightarrow> is_SimpleLLM 2 2 3 1 (snd (?step opt g m)))
        \<and> (\<forall>t \<in> set [0, 1, 0 :: int]. 0 \<le> t \<and> t < int 2) \<and> length [0, 1, 0 :: int] \<le> 5001"
    using is_SimpleLLM_tiny_model by simp
  with t obtain st' where r: "train_sentence (\<lambda>m p t. ()) ?step ?st [0, 1, 0] = Inr st'"
    by blast
  have u: "[1..<3] = [1, 2]" by (simp add: upt_conv_Cons)
  from t r have "calls st' = calls ?st @ concat (map example_calls (split_points [0, 1, 0]))"
    by blast
  then have "calls st' = [ZeroGrad, Forward [0], Loss 1, Backward, Step,
                    ZeroGrad, Forward [0, 1], Loss 0, Backward, Step]"
    by (simp add: split_points_def example_calls_def u)
  with r show ?thesis by blast
qed

subsection \<open>C2: scaled dot-product self-attention\<close>

text \<open>
  Claim C2. For an input of shape \<open>L \<times> d\<close> and the three projections of
  \<^verbatim>\<open>SelfAttention(d)\<close>: the raw score of query position \<open>i\<close> and key position \<open>j\<close> is
  the dot product of their projections divided by \<open>sqrt d\<close> (that is \<open>Q K\<^sup>T / sqrt d\<close>);
  the attention weights are the row-wise softmax of the scores, an \<open>L \<times> L\<close> matrix
  whose rows are non-negative and sum to 1; the output is \<open>weights \<times> Value\<close>, of shape
  \<open>L \<times> d\<close>. Entries are exact reals, so the row sums are exactly 1.
\<close>

theorem SelfAttention_forward_spec:
  assumes "wf_SelfAttention att d" and "has_shape x L d" and "0 < d"
  shows "scores att x =
           map (\<lambda>q. map (\<lambda>k. dot q k / sqrt (real d)) (Linear_forward (key att) x))
             (Linear_forward (query att) x)
       \<and> attention_weights att x = map softmax (scores att x)
       \<and> has_shape (attention_weights att x) L L
       \<and> (\<forall>r \<in> set (attention_weights att x). (\<forall>w \<in> set r. 0 \<le> w) \<and> sum_list r = 1)
       \<and> SelfAttention_forward att x =
           bmm (attention_weights att x) (Linear_forward (value_proj att) x)
       \<and> has_shape (SelfAttention_forward att x) L d
       \<and> (\<forall>i<L. \<forall>c<d. SelfAttention_forward att x ! i ! c =
             (\<Sum>j<L. attention_weights att x ! i ! j * Linear_forward (value_proj att) x ! j ! c))"
proof -
  let ?W = "attention_weights att x"
  let ?V = "Linear_forward (value_proj att) x"
  have len: "length x = L" using assms(2) by (simp add: has_shape_def)
  have s: "has_shape (scores att x) L L" by (rule scores_shape [OF assms])
  have w: "has_shape ?W L L"
    using s by (simp add: attention_weights_def has_shape_def softmax_length)
  have v: "has_shape ?V L d"
    using Linear_forward_shape [of "value_proj att" d d x] assms(1) len
    by (simp add: wf_SelfAttention_def)
  have rows: "\<forall>r \<in> set ?W. (\<forall>w \<in> set r. 0 \<le> w) \<and> sum_list r = 1"
  proof
    fix r assume "r \<in> set ?W"
    then obtain u where u: "u \<in> set (scores att x)" and r: "r = softmax u"
      by (auto simp: attention_weights_def)
    from u have "0 < L" using s by (cases "scores att x") (auto simp: has_shape_def)
    moreover have "length u = L" using u s by (simp add: has_shape_def)
    ultimately have "u \<noteq> []" by auto
    then show "(\<forall>w \<in> set r. 0 \<le> w) \<and> sum_list r = 1"
      unfolding r by (simp add: softmax_sum softmax_nonneg)
  qed
  have f: "SelfAttention_forward att x = bmm ?W ?V"
    by (simp add: SelfAttention_forward_def)
  have fs: "has_shape (SelfAttention_forward att x) L d"
  proof (cases "L = 0")
    case True
    then show ?thesis using w by (simp add: f bmm_def has_shape_def)
  next
    case False
    then show ?thesis unfolding f by (intro bmm_shape [OF w v]) simp
  qed
  have entries: "\<forall>i<L. \<forall>c<d. SelfAttention_forward att x ! i ! c =
      (\<Sum>j<L. ?W ! i ! j * ?V ! j ! c)"
  proof (intro allI impI)
    fix i c assume i: "i < L" and c: "c < d"
    then have "0 < L" by simp
    from bmm_nth [OF w v i c this] show "SelfAttention_forward att x ! i ! c =
      (\<Sum>j<L. ?W ! i ! j * ?V ! j ! c)" by (simp add: f)
  qed
  show ?thesis
    using scores_eq [OF assms] w rows f fs entries
    by (simp add: attention_weights_def)
qed

theorem SelfAttention_forward_spec_witness:
  "sum_list (attention_weights
      \<lparr>query = \<lparr>weight = [[1]], bias = [0]\<rparr>, key = \<lparr>weight = [[1]], bias = [0]\<rparr>,
       value_proj = \<lparr>weight = [[1]], bias = [0]\<rparr>\<rparr> [[1], [2]] ! 0) = 1
   \<and> has_shape (SelfAttention_forward
      \<lparr>query = \<lparr>weight = [[1]], bias = [0]\<rparr>, key = \<lparr>weight = [[1]], bias = [0]\<rparr>,
       value_proj = \<lparr>weight = [[1]], bias = [0]\<rparr>\<rparr> [[1], [2]]) 2 1"
proof -
  let ?att = "\<lparr>query = \<lparr>weight = [[1]], bias = [0]\<rparr>, key = \<lparr>weight = [[1]], bias = [0]\<rparr>,
       value_proj = \<lparr>weight = [[1]], bias = [0]\<rparr>\<rparr>"
  let ?x = "[[1], [2]] :: mat"
  have a: "wf_SelfAttention ?att 1"
    by (simp add: wf_SelfAttention_def wf_Linear_def has_shape_def)
  have b: "has_shape ?x 2 1" by (simp add: has_shape_def)
  have c: "0 < (1::nat)" by simp
  note t = SelfAttention_forward_spec [OF a b c]
  note w = t [THEN conjunct2, THEN conjunct2, THEN conjunct1]
  note rows = t [THEN conjunct2, THEN conjunct2, THEN conjunct2, THEN conjunct1]
  note fs = t [THEN conjunct2, THEN conjunct2, THEN conjunct2, THEN conjunct2,
    THEN conjunct2, THEN conjunct1]
  have "length (attention_weights ?att ?x) = 2" by (rule has_shape_length [OF w])
  then have "attention_weights ?att ?x ! 0 \<in> set (attention_weights ?att ?x)"
    by (intro nth_mem) simp
  with rows have "sum_list (attention_weights ?att ?x ! 0) = 1" by blast
  with fs show ?thesis by blast
qed

subsection \<open>C3: the transformer block normalises after each residual add\<close>

text \<open>
  Claim C3. For an input \<open>x\<close> of shape \<open>L \<times> d\<close>, the block returns
  \<open>Normalize (x1 + forwarded)\<close> with \<open>x1 = Normalize (x + attended)\<close>: each normalisation
  is applied to the sum of a sub-layer's input and output, not before the sum. The
  feed-forward is \<open>Linear (d \<rightarrow> hidden)\<close>, \<open>ReLU\<close>, \<open>Linear (hidden \<rightarrow> d)\<close> applied to \<open>x1\<close>, and
  it is position-wise: its row \<open>i\<close> is the feed-forward of row \<open>i\<close> of \<open>x1\<close> alone. The
  output has the shape \<open>L \<times> d\<close> of the input.
\<close>

theorem TransformerBlock_forward_spec:
  assumes "wf_TransformerBlock blk d h" and "has_shape x L d" and "0 < d"
  shows "(let attended = SelfAttention_forward (attention blk) x;
              x1 = LayerNorm_forward (norm1 blk) (madd x attended);
              forwarded = Linear_forward (ff_2 (feed_forward blk))
                            (ReLU (Linear_forward (ff_0 (feed_forward blk)) x1))
          in TransformerBlock_forward blk x = LayerNorm_forward (norm2 blk) (madd x1 forwarded)
           \<and> has_shape x1 L d
           \<and> has_shape forwarded L d
           \<and> (\<forall>i<L. forwarded ! i = hd (FeedForward_forward (feed_forward blk) [x1 ! i])))
       \<and> has_shape (TransformerBlock_forward blk x) L d"
proof -
  let ?att = "SelfAttention_forward (attention blk) x"
  let ?x1 = "LayerNorm_forward (norm1 blk) (madd x ?att)"
  let ?fw = "FeedForward_forward (feed_forward blk) ?x1"
  have wa: "wf_SelfAttention (attention blk) d" and wf: "wf_FeedForward (feed_forward blk) d h"
    and w1: "wf_LayerNorm (norm1 blk) d" and w2: "wf_LayerNorm (norm2 blk) d"
    using assms(1) by (simp_all add: wf_TransformerBlock_def)
  have a: "has_shape ?att L d"
    using SelfAttention_forward_shape [OF wa assms(2,3)] .
  have x1: "has_shape ?x1 L d"
    by (intro LayerNorm_forward_shape [OF w1] madd_shape assms(2) a)
  then have len: "length ?x1 = L" by (simp add: has_shape_def)
  have fw: "has_shape ?fw L d"
    using FeedForward_forward_shape [OF wf, of ?x1] len by simp
  have out: "has_shape (LayerNorm_forward (norm2 blk) (madd ?x1 ?fw)) L d"
    by (intro LayerNorm_forward_shape [OF w2] madd_shape x1 fw)
  have rw: "\<forall>i<L. ?fw ! i = hd (FeedForward_forward (feed_forward blk) [?x1 ! i])"
    using len by (simp add: FeedForward_forward_rowwise)
  show ?thesis
    using x1 fw out rw
    by (simp add: TransformerBlock_forward_def Let_def FeedForward_forward_def [symmetric])
qed

theorem TransformerBlock_forward_spec_witness:
  "has_shape (TransformerBlock_forward tiny_block [[1, 2], [3, 4], [5, 6]]) 3 2"
proof -
  have x: "has_shape [[1, 2], [3, 4], [5, 6]] 3 2" by (simp add: has_shape_def)
  have d: "0 < (2::nat)" by simp
  from TransformerBlock_forward_spec [OF wf_tiny_block x d] show ?thesis by blast
qed

subsection \<open>C4: the sinusoidal positional table\<close>

text \<open>
  Claim C4. In the table a \<^verbatim>\<open>PositionalEncoding\<close> is constructed with, the entry at
  position \<open>p\<close> below \<open>max_seq_len\<close> and channel \<open>c\<close> below \<open>d\<close> is
  \<open>sin (p / 10000 ^ (c / d))\<close> for even \<open>c\<close> and \<open>cos (p / 10000 ^ ((c - 1) / d))\<close> for odd
  \<open>c\<close>, and the row of position 0 is \<open>[0, 1, 0, 1, \<dots>]\<close>. The source computes the
  argument as \<open>p * exp (c' * (- ln 10000 / d))\<close> with \<open>c'\<close> the even channel of the pair;
  over the reals the two are equal. (The constructor returns for every even \<open>d > 0\<close>
  and for \<open>d = 1\<close>, and raises for the other \<open>d\<close>: \<open>PositionalEncoding_init_returns\<close>.)
\<close>

theorem PositionalEncoding_init_spec:
  assumes "PositionalEncoding_init d max_seq_len = Inr self" and "p < max_seq_len" and "c < d"
  shows "has_shape (pe self) max_seq_len d
       \<and> pe self ! p ! c =
           (if even c then sin (real p / 10000 powr (real c / real d))
            else cos (real p / 10000 powr (real (c - 1) / real d)))
       \<and> pe self ! 0 = map (\<lambda>c. if even c then 0 else 1) [0..<d]"
proof -
  have self: "pe self = pe_table d max_seq_len"
    using assms(1) by (auto simp: PositionalEncoding_init_def split: if_splits)
  have "0 < max_seq_len" using assms(2) by simp
  then show ?thesis
    by (simp add: self pe_table_shape pe_table_formula [OF assms(2,3)] pe_table_row0)
qed

theorem PositionalEncoding_init_spec_witness:
  "pe_table 2 3 ! 2 ! 1 = cos (2 / 10000 powr 0) \<and> pe_table 2 3 ! 0 = [0, 1]"
proof -
  have a: "PositionalEncoding_init 2 3 = Inr \<lparr>embedding_dim = 2, pe = pe_table 2 3\<rparr>"
    by (rule PositionalEncoding_init_even) simp_all
  have b: "(2::nat) < 3" and c: "(1::nat) < 2" by simp_all
  have u: "[0..<2] = [0, 1]" by (simp add: upt_rec)
  from PositionalEncoding_init_spec [OF a b c] show ?thesis by (simp add: u)
qed

subsection \<open>C5: a sequence longer than the positional table\<close>

text \<open>
  Claim C5. On a constructed model, whose positional table has 5000 rows, a forward
  pass on a sequence of more than 5000 tokens returns no result: it raises. With every
  token id in the vocabulary the exception is the size mismatch of the positional
  addition (the sliced table has 5000 rows, the sequence more, and neither is
  broadcast); otherwise it is the \<^verbatim>\<open>IndexError\<close> of the embedding lookup, which comes
  first. The positional encoder of the model raises on every input of that length, so
  no position is truncated or wrapped.
\<close>

theorem forward_rejects_long_sequence:
  assumes "is_SimpleLLM V d h n m" and "5000 < length ids"
  shows "(\<exists>e. fst (SimpleLLM_call m (torch_tensor ids)) = Inl e)
       \<and> fst (SimpleLLM_call m (torch_tensor ids)) =
           (if \<forall>i \<in> set ids. 0 \<le> i \<and> i < int V then Inl RuntimeError_size else Inl IndexError)
       \<and> (\<forall>x. length x = length ids \<longrightarrow>
             PositionalEncoding_forward (positional_encoding m) x = Inl RuntimeError_size)"
proof -
  have t: "torch_tensor ids = LongTensor ids" using assms(2) by (auto simp: torch_tensor_def)
  have init: "PositionalEncoding_init d 5000 = Inr (positional_encoding m)"
    using assms(1) by (simp add: is_SimpleLLM_def)
  have pe: "length (pe (positional_encoding m)) = 5000"
    using PositionalEncoding_init_Inr [OF init] pe_table_shape [of d 5000]
    by (simp add: has_shape_def)
  have "\<forall>x. length x = length ids \<longrightarrow>
      PositionalEncoding_forward (positional_encoding m) x = Inl RuntimeError_size"
    using assms(2) by (auto intro!: PositionalEncoding_forward_too_long simp: pe)
  then show ?thesis
    by (simp add: SimpleLLM_call_def t SimpleLLM_forward_too_long [OF assms])
qed

theorem forward_rejects_long_sequence_witness:
  "fst (SimpleLLM_call tiny_model (torch_tensor (replicate 5001 0))) = Inl RuntimeError_size"
proof -
  have len: "5000 < length (replicate 5001 (0::int))" by simp
  from forward_rejects_long_sequence [OF is_SimpleLLM_tiny_model len]
  show ?thesis by simp
qed

subsection \<open>C6: token ids outside the embedding table\<close>

text \<open>
  Claim C6. When some token id of the input is below 0 or not below the number of
  rows of the embedding matrix, the lookup raises \<^verbatim>\<open>IndexError\<close>, and so do, unchanged,
  the forward pass of the model, the greedy decoder and the training step on that
  input: nothing catches or converts it. When every id is inside the range, the lookup
  returns the rows of the matrix the ids name.
\<close>

theorem Embedding_lookup_spec:
  "((\<exists>i \<in> set ids. i < 0 \<or> int (length (emb_weight (embedding m))) \<le> i) \<longrightarrow>
       Embedding_forward (embedding m) (LongTensor ids) = Inl IndexError
     \<and> SimpleLLM_call m (torch_tensor ids) = (Inl IndexError, m)
     \<and> predict m ids = (Inl IndexError, m)
     \<and> (\<forall>backward step st sentence n. model st = m \<and> take n sentence = ids \<longrightarrow>
          train_step backward step sentence (st :: ('o, 'g) train_state) n = Inl IndexError))
   \<and> ((\<forall>i \<in> set ids. 0 \<le> i \<and> i < int (length (emb_weight (embedding m)))) \<longrightarrow>
       Embedding_forward (embedding m) (LongTensor ids) =
         Inr (map (\<lambda>i. emb_weight (embedding m) ! nat i) ids))"
proof (intro conjI impI)
  assume bad: "\<exists>i \<in> set ids. i < 0 \<or> int (length (emb_weight (embedding m))) \<le> i"
  then obtain i where i: "i \<in> set ids" "i < 0 \<or> int (length (emb_weight (embedding m))) \<le> i"
    by blast
  then have ne: "ids \<noteq> []" by auto
  show "Embedding_forward (embedding m) (LongTensor ids) = Inl IndexError"
    by (rule Embedding_forward_out_of_range [OF i])
  have f: "SimpleLLM_forward m (torch_tensor ids) = Inl IndexError"
    by (simp add: torch_tensor_nonempty [OF ne] SimpleLLM_forward_out_of_range [OF i])
  then show "SimpleLLM_call m (torch_tensor ids) = (Inl IndexError, m)"
    by (simp add: SimpleLLM_call_def)
  show "predict m ids = (Inl IndexError, m)"
    by (simp add: predict_forward f)
  show "\<forall>backward step st sentence n. model st = m \<and> take n sentence = ids \<longrightarrow>
          train_step backward step sentence (st :: ('o, 'g) train_state) n = Inl IndexError"
    using f by (auto simp: train_step_forward_error)
next
  assume "\<forall>i \<in> set ids. 0 \<le> i \<and> i < int (length (emb_weight (embedding m)))"
  then show "Embedding_forward (embedding m) (LongTensor ids) =
         Inr (map (\<lambda>i. emb_weight (embedding m) ! nat i) ids)"
    by (rule Embedding_forward_in_range)
qed

theorem Embedding_lookup_spec_witness:
  "predict tiny_model [0, 7] = (Inl IndexError, tiny_model)
   \<and> Embedding_forward (embedding tiny_model) (LongTensor [1, 0]) = Inr [[0, 1], [1, 0]]"
proof -
  have a: "\<exists>i \<in> set [0, 7 :: int]. i < 0 \<or> int (length (emb_weight (embedding tiny_model))) \<le> i"
    by (simp add: tiny_model_def)
  have b: "\<forall>i \<in> set [1, 0 :: int]. 0 \<le> i \<and> i < int (length (emb_weight (embedding tiny_model)))"
    by (simp add: tiny_model_def)
  from Embedding_lookup_spec [of "[0, 7]" tiny_model] a
  have "predict tiny_model [0, 7] = (Inl IndexError, tiny_model)" by blast
  moreover from Embedding_lookup_spec [of "[1, 0]" tiny_model] b
  have "Embedding_forward (embedding tiny_model) (LongTensor [1, 0]) =
      Inr (map (\<lambda>i. emb_weight (embedding tiny_model) ! nat i) [1, 0])" by blast
  ultimately show ?thesis by (simp add: tiny_model_def)
qed

subsection \<open>C7: the empty input at inference\<close>

text \<open>
  Claim C7, amended. The claim is that the greedy decoder explicitly rejects the empty
  token sequence with a clear error. The cell of Step 8 has no test for the empty
  input, so the claim fails as it is stated; what holds is this. On the empty token
  sequence the cell builds \<^verbatim>\<open>torch.tensor([])\<close>, which is a float32 tensor, and calls the
  model with it; the embedding lookup refuses an index tensor of a float dtype, and
  that \<^verbatim>\<open>RuntimeError\<close> is passed on by the forward pass and by the decoder. So for
  every model the decoder on the empty token sequence ends with the dtype error of
  \<^verbatim>\<open>nn.Embedding\<close> and returns no token id, and so does the whole cell on a text
  without a word.
\<close>

theorem predict_empty_input:
  "torch_tensor [] = FloatTensor []
   \<and> Embedding_forward (embedding m) (torch_tensor []) = Inl RuntimeError_dtype
   \<and> SimpleLLM_call m (torch_tensor []) = (Inl RuntimeError_dtype, m)
   \<and> predict m [] = (Inl RuntimeError_dtype, m)
   \<and> ((\<forall>c \<in> set input_text. is_space c) \<longrightarrow>
         use_model m input_text = (Inl RuntimeError_dtype, m))"
proof -
  have t: "torch_tensor [] = FloatTensor []" by (simp add: torch_tensor_def)
  have e: "Embedding_forward (embedding m) (torch_tensor []) = Inl RuntimeError_dtype"
    by (simp add: t Embedding_forward_def)
  have c: "SimpleLLM_call m (torch_tensor []) = (Inl RuntimeError_dtype, m)"
    by (simp add: SimpleLLM_call_def SimpleLLM_forward_def e)
  have p: "predict m [] = (Inl RuntimeError_dtype, m)"
    by (simp add: predict_def c Let_def)
  have "tokenize input_text vocab = Inr []" if "\<forall>c \<in> set input_text. is_space c"
    using that by (simp add: tokenize_def str_split_def split_acc_spaces)
  then show ?thesis using t e c p by (simp add: use_model_def)
qed

theorem predict_empty_input_witness:
  "predict tiny_model [] = (Inl RuntimeError_dtype, tiny_model)
   \<and> use_model tiny_model [CHR 0x20, CHR 0x09] = (Inl RuntimeError_dtype, tiny_model)"
proof -
  have "\<forall>c \<in> set [CHR 0x20, CHR 0x09]. is_space c" by (simp add: is_space_def)
  with predict_empty_input [of tiny_model "[CHR 0x20, CHR 0x09]"] show ?thesis by blast
qed

text \<open>
  Against the claim as stated: nothing rejects the empty sequence as such. The forward
  pass of the small model on the empty sequence of ids, carried by an int64 tensor,
  raises nothing and returns the logits matrix with no row; and the error the decoder
  ends with on the empty list is the one the embedding lookup gives every float
  tensor, here one with an element. The error is about the dtype that
  \<^verbatim>\<open>torch.tensor\<close> gives the empty list, not a rejection of the empty input.
\<close>

theorem predict_empty_input_counterexample:
  "SimpleLLM_forward tiny_model (LongTensor []) = Inr []
   \<and> Embedding_forward (embedding tiny_model) (FloatTensor [1 / 2]) = Inl RuntimeError_dtype
   \<and> fst (predict tiny_model []) = Inl RuntimeError_dtype"
proof -
  have f: "SimpleLLM_forward tiny_model (LongTensor []) = Inr []"
    by (simp add: SimpleLLM_forward_def Embedding_forward_def PositionalEncoding_forward_def
        madd_def Sequential_forward_def TransformerBlock_forward_def SelfAttention_forward_def
        attention_weights_def scores_def bmm_def LayerNorm_forward_def FeedForward_forward_def
        ReLU_def Linear_forward_def tiny_model_def Let_def)
  have e: "Embedding_forward (embedding tiny_model) (FloatTensor [1 / 2]) = Inl RuntimeError_dtype"
    by (simp add: Embedding_forward_def)
  have p: "fst (predict tiny_model []) = Inl RuntimeError_dtype"
    by (simp add: predict_forward torch_tensor_def SimpleLLM_forward_def Embedding_forward_def)
  from f e p show ?thesis by simp
qed

subsection \<open>C8: greedy decoding\<close>

text \<open>
  Claim C8. The greedy decoder runs the forward pass once and returns the arg-max of
  the logits at the last position; it leaves the model as it was, so a second run on
  the same input returns the same outcome. On a constructed model, a non-empty
  sequence of at most 5000 tokens of the vocabulary, the forward pass returns an
  \<open>L \<times> vocab_size\<close> matrix and the decoder returns an id \<open>p\<close> below \<open>vocab_size\<close> whose
  logit in the last row is maximal, the first such id.
\<close>

theorem predict_spec:
  "predict m ids =
     (bindE (SimpleLLM_forward m (torch_tensor ids))
        (\<lambda>out. bindE (last_position out) (\<lambda>logits. argmax logits)), m)
   \<and> predict (snd (predict m ids)) ids = predict m ids
   \<and> (is_SimpleLLM V d h n m \<and> ids \<noteq> [] \<and> (\<forall>i \<in> set ids. 0 \<le> i \<and> i < int V)
        \<and> length ids \<le> 5000 \<longrightarrow>
       (\<exists>out p. SimpleLLM_forward m (torch_tensor ids) = Inr out \<and> has_shape out (length ids) V
          \<and> predict m ids = (Inr p, m) \<and> p = argmax_list (last out) \<and> p < V
          \<and> (\<forall>j<V. last out ! j \<le> last out ! p) \<and> (\<forall>j<p. last out ! j < last out ! p)))"
proof (intro conjI impI)
  show p: "predict m ids =
     (bindE (SimpleLLM_forward m (torch_tensor ids))
        (\<lambda>out. bindE (last_position out) (\<lambda>logits. argmax logits)), m)"
    by (rule predict_forward)
  show "predict (snd (predict m ids)) ids = predict m ids"
    by (simp add: predict_forward)
next
  assume a: "is_SimpleLLM V d h n m \<and> ids \<noteq> [] \<and> (\<forall>i \<in> set ids. 0 \<le> i \<and> i < int V)
        \<and> length ids \<le> 5000"
  then have ne: "ids \<noteq> []" by simp
  from a SimpleLLM_forward_ok [of V d h n m ids]
  obtain out where f: "SimpleLLM_forward m (LongTensor ids) = Inr out"
    and s: "has_shape out (length ids) V" by blast
  from s ne have o: "out \<noteq> []" by (auto simp: has_shape_def)
  then have "last out \<in> set out" by simp
  with s have len: "length (last out) = V" by (simp add: has_shape_def)
  from a ne have "0 < V" by (cases ids) auto
  with len have l: "last out \<noteq> []" by auto
  let ?p = "argmax_list (last out)"
  have "predict m ids = (Inr ?p, m)"
    by (simp add: predict_forward torch_tensor_nonempty [OF ne] f last_position_def o argmax_def l)
  moreover have "?p < V" using argmax_list_less [OF l] len by simp
  moreover have "\<forall>j<V. last out ! j \<le> last out ! ?p"
    using argmax_list_max [of _ "last out"] len by simp
  moreover have "\<forall>j<?p. last out ! j < last out ! ?p"
    using argmax_list_first [of _ "last out"] by simp
  ultimately show "\<exists>out p. SimpleLLM_forward m (torch_tensor ids) = Inr out \<and> has_shape out (length ids) V
          \<and> predict m ids = (Inr p, m) \<and> p = argmax_list (last out) \<and> p < V
          \<and> (\<forall>j<V. last out ! j \<le> last out ! p) \<and> (\<forall>j<p. last out ! j < last out ! p)"
    using f s by (simp add: torch_tensor_nonempty [OF ne])
qed

theorem predict_spec_witness:
  "\<exists>p<2. predict tiny_model [0, 1] = (Inr p, tiny_model)"
proof -
  have "is_SimpleLLM 2 2 3 1 tiny_model \<and> [0, 1 :: int] \<noteq> []
      \<and> (\<forall>i \<in> set [0, 1 :: int]. 0 \<le> i \<and> i < int 2) \<and> length [0, 1 :: int] \<le> 5000"
    using is_SimpleLLM_tiny_model by simp
  with predict_spec [of tiny_model "[0, 1]" 2 2 3 1] show ?thesis by blast
qed

subsection \<open>C9: a forward pass changes nothing\<close>

text \<open>
  Claim C9. A call of the model returns the model it was given: the embedding table,
  the positional table, the blocks (projections, feed-forward, normalisation scale and
  shift) and the output projection are unchanged, and the result of a later call is
  the forward pass of the original model on the later input, whatever the earlier
  input was. In every call the positional encoder adds row \<open>i\<close> of the table to
  position \<open>i\<close> of the embedded sequence, for the positions \<open>0, \<dots>, L - 1\<close> of that call.
\<close>

theorem SimpleLLM_call_frame:
  "snd (SimpleLLM_call m x) = m
   \<and> embedding (snd (SimpleLLM_call m x)) = embedding m
   \<and> positional_encoding (snd (SimpleLLM_call m x)) = positional_encoding m
   \<and> transformer_blocks (snd (SimpleLLM_call m x)) = transformer_blocks m
   \<and> output_proj (snd (SimpleLLM_call m x)) = output_proj m
   \<and> fst (SimpleLLM_call (snd (SimpleLLM_call m x)) y) = SimpleLLM_forward m y
   \<and> (\<forall>e. Embedding_forward (embedding m) y = Inr e \<and> length e \<le> length (pe (positional_encoding m)) \<longrightarrow>
        PositionalEncoding_forward (positional_encoding m) e =
          Inr (map (\<lambda>i. map2 (+) (e ! i) (pe (positional_encoding m) ! i)) [0..<length e]))"
proof -
  have "PositionalEncoding_forward (positional_encoding m) e =
          Inr (map (\<lambda>i. map2 (+) (e ! i) (pe (positional_encoding m) ! i)) [0..<length e])"
    if "length e \<le> length (pe (positional_encoding m))" for e
  proof -
    have "madd e (take (length e) (pe (positional_encoding m))) =
        map (\<lambda>i. map2 (+) (e ! i) (pe (positional_encoding m) ! i)) [0..<length e]"
      using that by (auto simp: madd_def intro!: nth_equalityI)
    then show ?thesis by (simp add: PositionalEncoding_forward_fits [OF that])
  qed
  then show ?thesis by (simp add: SimpleLLM_call_def)
qed

theorem SimpleLLM_call_frame_witness:
  "snd (SimpleLLM_call tiny_model (LongTensor [0, 1])) = tiny_model
   \<and> PositionalEncoding_forward (positional_encoding tiny_model) [[0, 1]] =
       Inr [map2 (+) [0, 1] (pe_table 2 5000 ! 0)]"
proof -
  have e: "Embedding_forward (embedding tiny_model) (LongTensor [1]) = Inr [[0, 1]]"
    by (simp add: Embedding_forward_def tiny_model_def)
  have l: "length [[0, 1 :: real]] \<le> length (pe (positional_encoding tiny_model))"
    using pe_table_shape [of 2 5000] by (simp add: tiny_model_def has_shape_def)
  from SimpleLLM_call_frame [of tiny_model "LongTensor [0, 1]" "LongTensor [1]"] e l
  have "snd (SimpleLLM_call tiny_model (LongTensor [0, 1])) = tiny_model"
    and "PositionalEncoding_forward (positional_encoding tiny_model) [[0, 1]] =
          Inr (map (\<lambda>i. map2 (+) ([[0, 1]] ! i) (pe (positional_encoding tiny_model) ! i))
            [0..<length [[0, 1 :: real]]])"
    by blast+
  then show ?thesis by (simp add: tiny_model_def)
qed

subsection \<open>C10: tokenized ids are vocabulary values\<close>

text \<open>
  Claim C10. With a vocabulary that has the key \<open><UNK>\<close>, \<open>tokenize\<close> returns, for
  every text, a list of ids that are values of the vocabulary. The notebook's
  vocabulary has 73 keys and the values 0 to 72, so every id \<open>tokenize\<close> returns with it
  is in \<open>[0, vocab_size)\<close>, and an embedding table of \<open>vocab_size\<close> rows never raises
  \<^verbatim>\<open>IndexError\<close> on a tokenized input.
\<close>

theorem tokenize_ids_in_vocabulary:
  "(voc ''<UNK>'' \<noteq> None \<longrightarrow> (\<exists>ids. tokenize input_text voc = Inr ids \<and> set ids \<subseteq> ran voc))
   \<and> (\<exists>ids. tokenize input_text vocab = Inr ids
         \<and> (\<forall>i \<in> set ids. 0 \<le> i \<and> i < int vocab_size)
         \<and> (\<forall>E. length (emb_weight E) = vocab_size \<longrightarrow>
               Embedding_forward E (torch_tensor ids) \<noteq> Inl IndexError))
   \<and> vocab_size = 73 \<and> ran vocab = {0..72}"
proof (intro conjI impI)
  assume "voc ''<UNK>'' \<noteq> None"
  then obtain unk where u: "voc ''<UNK>'' = Some unk" by auto
  from tokenize_with_unk [of voc unk, OF u] tokenize_ran [of voc unk, OF u]
  show "\<exists>ids. tokenize input_text voc = Inr ids \<and> set ids \<subseteq> ran voc" by blast
next
  from tokenize_with_unk [of vocab 5, OF vocab_unk]
  obtain ids where t: "tokenize input_text vocab = Inr ids" by blast
  from tokenize_ran [of vocab 5, OF vocab_unk t] ran_vocab
  have r: "\<forall>i \<in> set ids. 0 \<le> i \<and> i < int vocab_size" by blast
  have "Embedding_forward E (torch_tensor ids) \<noteq> Inl IndexError"
    if "length (emb_weight E) = vocab_size" for E
    using r that by (simp add: torch_tensor_def Embedding_forward_def)
  with t r show "\<exists>ids. tokenize input_text vocab = Inr ids
         \<and> (\<forall>i \<in> set ids. 0 \<le> i \<and> i < int vocab_size)
         \<and> (\<forall>E. length (emb_weight E) = vocab_size \<longrightarrow>
               Embedding_forward E (torch_tensor ids) \<noteq> Inl IndexError)" by blast
next
  show "vocab_size = 73" by (rule vocab_size_eq)
next
  show "ran vocab = {0..72}" by (rule ran_vocab_eq)
qed

theorem tokenize_ids_in_vocabulary_witness:
  "\<exists>ids. tokenize ''AI rocks'' vocab = Inr ids \<and> set ids \<subseteq> ran vocab"
proof -
  have "vocab ''<UNK>'' \<noteq> None" by (simp add: vocab_unk)
  with tokenize_ids_in_vocabulary [of vocab "''AI rocks''"] show ?thesis by blast
qed

end
